theory Spec2Isabelle
  imports Main
begin

section \<open>The restore handler of the version header\<close>

text \<open>
  Source: \<^verbatim>\<open>apps/snow-leopard/components/document/version-header.tsx\<close>,
  \<^verbatim>\<open>handleRestoreVersion\<close> (lines 42-103).

  A JavaScript value of type \<^verbatim>\<open>string | null\<close> is a \<^typ>\<open>string option\<close>, with
  \<^term>\<open>None\<close> for \<^verbatim>\<open>null\<close>. The entries of \<^verbatim>\<open>documents\<close> are of type
  \<^verbatim>\<open>Document | VersionData\<close>; the record below keeps the fields the component reads
  (\<^verbatim>\<open>content\<close> is nullable in \<^verbatim>\<open>Document\<close>; \<^verbatim>\<open>title\<close> is declared a string in
  both, and is modelled as nullable too, so that the falsy test of the handler is
  covered for every value that can cross the JSON boundary). \<^verbatim>\<open>createdAt\<close> is a
  number of milliseconds.
\<close>

record version_entry =
  v_id :: string
  v_content :: "string option"
  v_title :: "string option"
  v_createdAt :: int

text \<open>The in-memory document of the \<^verbatim>\<open>useDocument\<close> hook: the fields the handler touches.\<close>

record ui_document =
  documentId :: string
  content :: string
  title :: string

datatype nav_intent = Next | Prev | Toggle | Latest

text \<open>
  The result of \<^verbatim>\<open>await fetch(...)\<close>: the promise rejects (a network error), or it
  resolves to a response with a status; \<^verbatim>\<open>response.ok\<close> holds for the statuses 200-299.
\<close>

datatype fetch_outcome = FetchRejected | Response nat

definition response_ok :: "nat \<Rightarrow> bool" where
  "response_ok status = (200 \<le> status \<and> status \<le> 299)"

text \<open>The JSON body of the POST request, and the \<^verbatim>\<open>detail\<close> of the custom event.\<close>

record restore_body =
  body_id :: string
  body_content :: "string option"
  body_title :: "string option"

record restored_detail =
  detail_documentId :: string
  detail_content :: "string option"
  detail_title :: "string option"

text \<open>
  What the handler catches: the request did not get through, the response was not
  \<^verbatim>\<open>ok\<close> (the error thrown at line 67, with the status), or the revalidation was
  rejected.
\<close>

datatype js_error = NetworkError | RestoreFailed nat | RevalidationError

text \<open>
  Everything the handler does to the outside world, in the order it does it: toasts, the
  HTTP request, the SWR revalidation, the call into the version cache, console output and
  the dispatched event.
\<close>

datatype effect =
    ToastError string
  | ToastSuccess string
  | Fetch string string restore_body
  | SwrMutate string
  | CacheInvalidate string
  | ConsoleLog string
  | ConsoleWarn string
  | ConsoleError string js_error
  | DispatchEvent string restored_detail

text \<open>
  The state the handler works on: the document of \<^verbatim>\<open>useDocument\<close>, the navigation state
  that \<^verbatim>\<open>handleVersionChange\<close> acts on (owned by the parent component, of some type
  \<^typ>\<open>'n\<close>), the version cache (of some type \<^typ>\<open>'c\<close>), the busy flag and the trace of
  effects.
\<close>

record ('n, 'c) world =
  document :: ui_document
  nav :: 'n
  cache :: 'c
  isMutating :: bool
  effects :: "effect list"

text \<open>
  The properties of the component. \<^verbatim>\<open>documents\<close> may be undefined;
  \<^verbatim>\<open>currentVersionIndex\<close> is an integer index.
\<close>

record 'n props =
  handleVersionChange :: "nav_intent \<Rightarrow> 'n \<Rightarrow> 'n"
  documents :: "version_entry list option"
  currentVersionIndex :: int

text \<open>
  The collaborators that are not part of this file of the source, one for each
  \<^verbatim>\<open>await\<close> of the handler: the HTTP endpoint behind \<^verbatim>\<open>fetch\<close>; \<^verbatim>\<open>mutate\<close> of SWR,
  which revalidates a key by fetching it again from the same endpoint and whose promise
  resolves or rejects; and \<^verbatim>\<open>versionCache.invalidateVersions\<close> of \<^verbatim>\<open>@/lib/utils\<close>,
  which returns the cache it leaves behind, and whether its promise resolved or rejected.
\<close>

datatype mutate_outcome = Revalidated | MutateRejected

datatype 'c cache_result = Invalidated 'c | InvalidateFailed 'c

record 'c env =
  fetch :: "string \<Rightarrow> string \<Rightarrow> restore_body \<Rightarrow> fetch_outcome"
  mutate :: "string \<Rightarrow> mutate_outcome"
  invalidateVersions :: "string \<Rightarrow> 'c \<Rightarrow> 'c cache_result"

definition emit :: "effect \<Rightarrow> ('n, 'c) world \<Rightarrow> ('n, 'c) world" where
  "emit e s = s\<lparr>effects := effects s @ [e]\<rparr>"

text \<open>\<^verbatim>\<open>a || b\<close> on a nullable string: the empty string and \<^verbatim>\<open>null\<close> are falsy.\<close>

definition or_else :: "string option \<Rightarrow> string \<Rightarrow> string" where
  "or_else a b = (case a of None \<Rightarrow> b | Some x \<Rightarrow> if x = [] then b else x)"

text \<open>
  The variables of the closure that are alive across the first \<^verbatim>\<open>await\<close>.
\<close>

record pending_restore =
  p_documentId :: string
  p_content :: "string option"
  p_title :: "string option"

definition restore_request :: "pending_restore \<Rightarrow> restore_body" where
  "restore_request q =
     \<lparr>body_id = p_documentId q, body_content = p_content q, body_title = p_title q\<rparr>"

text \<open>
  The handler up to its first \<^verbatim>\<open>await\<close> (lines 43-64): the guard, the busy flag, and
  the request that is sent. It returns the closure of the suspended call, or nothing when
  the guard returned early.
\<close>

definition restore_begin ::
    "'n props \<Rightarrow> ('n, 'c) world \<Rightarrow> ('n, 'c) world \<times> pending_restore option" where
  "restore_begin p s =
     (case documents p of
        None \<Rightarrow> (emit (ToastError ''Invalid version selected'') s, None)
      | Some docs \<Rightarrow>
          if currentVersionIndex p < 0 \<or> currentVersionIndex p \<ge> int (length docs)
          then (emit (ToastError ''Invalid version selected'') s, None)
          else
            let versionToRestore = docs ! nat (currentVersionIndex p);
                q = \<lparr>p_documentId = documentId (document s),
                     p_content = v_content versionToRestore,
                     p_title = v_title versionToRestore\<rparr>
            in (emit (Fetch ''/api/document'' ''POST'' (restore_request q))
                  (s\<lparr>isMutating := True\<rparr>),
                Some q))"

text \<open>The \<^verbatim>\<open>catch\<close> block of lines 97-99.\<close>

definition on_error :: "js_error \<Rightarrow> ('n, 'c) world \<Rightarrow> ('n, 'c) world" where
  "on_error err s =
     emit (ToastError ''Failed to restore version'')
       (emit (ConsoleError ''[Version] Error restoring version:'' err) s)"

text \<open>The inner \<^verbatim>\<open>try\<close>/\<^verbatim>\<open>catch\<close> of lines 80-85.\<close>

definition invalidate_cache ::
    "'c env \<Rightarrow> string \<Rightarrow> ('n, 'c) world \<Rightarrow> ('n, 'c) world" where
  "invalidate_cache E docId s =
     (case invalidateVersions E docId (cache s) of
        Invalidated c \<Rightarrow>
          emit (ConsoleLog (''[Version] Invalidated cache after restore for '' @ docId))
            (emit (CacheInvalidate docId) (s\<lparr>cache := c\<rparr>))
      | InvalidateFailed c \<Rightarrow>
          emit (ConsoleWarn ''[Version] Failed to invalidate cache:'')
            (emit (CacheInvalidate docId) (s\<lparr>cache := c\<rparr>)))"

text \<open>
  Lines 70-96: what follows a response that is \<^verbatim>\<open>ok\<close>. A rejection of \<^verbatim>\<open>mutate\<close>
  is caught by the outer \<^verbatim>\<open>catch\<close>, like the failure of the request.
\<close>

definition restore_success ::
    "'c env \<Rightarrow> 'n props \<Rightarrow> pending_restore \<Rightarrow> ('n, 'c) world \<Rightarrow> ('n, 'c) world" where
  "restore_success E p q s =
     (let s1 = emit (SwrMutate (''/api/document?id='' @ p_documentId q)) s
      in case mutate E (''/api/document?id='' @ p_documentId q) of
           MutateRejected \<Rightarrow> on_error RevalidationError s1
         | Revalidated \<Rightarrow>
             let s2 = s1\<lparr>document := (document s1)
                        \<lparr>content := or_else (p_content q) [],
                         title := or_else (p_title q) (title (document s1))\<rparr>\<rparr>;
                 s3 = s2\<lparr>nav := handleVersionChange p Latest (nav s2)\<rparr>;
                 s4 = invalidate_cache E (p_documentId q) s3;
                 s5 = emit (DispatchEvent ''version-restored''
                         \<lparr>detail_documentId = p_documentId q,
                          detail_content = p_content q,
                          detail_title = p_title q\<rparr>) s4
             in emit (ToastSuccess ''Version restored successfully'') s5)"

text \<open>
  The handler from the moment the promise of \<^verbatim>\<open>fetch\<close> settles (lines 66-102), with the
  \<^verbatim>\<open>finally\<close> block last.
\<close>

definition restore_settle ::
    "'c env \<Rightarrow> 'n props \<Rightarrow> pending_restore \<Rightarrow> fetch_outcome \<Rightarrow> ('n, 'c) world
      \<Rightarrow> ('n, 'c) world" where
  "restore_settle E p q outcome s =
     (let s' = (case outcome of
                  FetchRejected \<Rightarrow> on_error NetworkError s
                | Response status \<Rightarrow>
                    if \<not> response_ok status then on_error (RestoreFailed status) s
                    else restore_success E p q s)
      in s'\<lparr>isMutating := False\<rparr>)"

text \<open>One invocation of the handler, run to its end.\<close>

definition handleRestoreVersion ::
    "'c env \<Rightarrow> 'n props \<Rightarrow> ('n, 'c) world \<Rightarrow> ('n, 'c) world" where
  "handleRestoreVersion E p s =
     (case restore_begin p s of
        (s1, None) \<Rightarrow> s1
      | (s1, Some q) \<Rightarrow>
          restore_settle E p q (fetch E ''/api/document'' ''POST'' (restore_request q)) s1)"

text \<open>What the claims say about the props, the store and the trace.\<close>

definition valid_index :: "'n props \<Rightarrow> bool" where
  "valid_index p =
     (case documents p of
        None \<Rightarrow> False
      | Some docs \<Rightarrow> 0 \<le> currentVersionIndex p \<and> currentVersionIndex p < int (length docs))"

definition invalid_selection :: "'n props \<Rightarrow> bool" where
  "invalid_selection p =
     (case documents p of
        None \<Rightarrow> True
      | Some docs \<Rightarrow>
          docs = [] \<or> currentVersionIndex p < 0 \<or> currentVersionIndex p \<ge> int (length docs))"

definition selected_version :: "'n props \<Rightarrow> version_entry" where
  "selected_version p = the (documents p) ! nat (currentVersionIndex p)"

definition selected_body :: "'n props \<Rightarrow> ('n, 'c) world \<Rightarrow> restore_body" where
  "selected_body p s =
     \<lparr>body_id = documentId (document s),
      body_content = v_content (selected_version p),
      body_title = v_title (selected_version p)\<rparr>"

definition store_response :: "'c env \<Rightarrow> 'n props \<Rightarrow> ('n, 'c) world \<Rightarrow> fetch_outcome" where
  "store_response E p s = fetch E ''/api/document'' ''POST'' (selected_body p s)"

definition post_succeeds :: "'c env \<Rightarrow> 'n props \<Rightarrow> ('n, 'c) world \<Rightarrow> bool" where
  "post_succeeds E p s =
     (case store_response E p s of FetchRejected \<Rightarrow> False | Response status \<Rightarrow> response_ok status)"

definition revalidation_key :: "('n, 'c) world \<Rightarrow> string" where
  "revalidation_key s = ''/api/document?id='' @ documentId (document s)"

text \<open>
  The handler calls the store twice over HTTP: the POST of the restored content, and the
  revalidation of the document that \<^verbatim>\<open>mutate\<close> starts once the POST is answered. The
  store call of a restore succeeds when the POST is answered with a status that is
  \<^verbatim>\<open>ok\<close> and the promise of the revalidation resolves.
\<close>

definition store_call_succeeds :: "'c env \<Rightarrow> 'n props \<Rightarrow> ('n, 'c) world \<Rightarrow> bool" where
  "store_call_succeeds E p s =
     (post_succeeds E p s \<and> mutate E (revalidation_key s) = Revalidated)"

definition store_error :: "fetch_outcome \<Rightarrow> js_error" where
  "store_error outcome =
     (case outcome of
        FetchRejected \<Rightarrow> NetworkError
      | Response status \<Rightarrow> if response_ok status then RevalidationError else RestoreFailed status)"

definition is_toast_success :: "effect \<Rightarrow> bool" where
  "is_toast_success e = (case e of ToastSuccess _ \<Rightarrow> True | _ \<Rightarrow> False)"

definition new_effects :: "('n, 'c) world \<Rightarrow> ('n, 'c) world \<Rightarrow> effect list" where
  "new_effects s s' = drop (length (effects s)) (effects s')"

definition is_fetch :: "effect \<Rightarrow> bool" where
  "is_fetch e = (case e of Fetch _ _ _ \<Rightarrow> True | _ \<Rightarrow> False)"

definition is_event :: "effect \<Rightarrow> bool" where
  "is_event e = (case e of DispatchEvent _ _ \<Rightarrow> True | _ \<Rightarrow> False)"

definition is_cache_call :: "effect \<Rightarrow> bool" where
  "is_cache_call e = (case e of CacheInvalidate _ \<Rightarrow> True | _ \<Rightarrow> False)"

definition cache_after :: "'c cache_result \<Rightarrow> 'c" where
  "cache_after r = (case r of Invalidated c \<Rightarrow> c | InvalidateFailed c \<Rightarrow> c)"

definition cache_console :: "string \<Rightarrow> 'c cache_result \<Rightarrow> effect" where
  "cache_console docId r =
     (case r of
        Invalidated _ \<Rightarrow> ConsoleLog (''[Version] Invalidated cache after restore for '' @ docId)
      | InvalidateFailed _ \<Rightarrow> ConsoleWarn ''[Version] Failed to invalidate cache:'')"

definition restored_event :: "'n props \<Rightarrow> ('n, 'c) world \<Rightarrow> effect" where
  "restored_event p s =
     DispatchEvent ''version-restored''
       \<lparr>detail_documentId = documentId (document s),
        detail_content = v_content (selected_version p),
        detail_title = v_title (selected_version p)\<rparr>"

text \<open>
  An example environment for closed instances: the navigation state is an index into a
  list of five versions, the cache an association list from document ids to cached
  version ids, and the endpoint answers 200 unless the title sent is \<^verbatim>\<open>"reject"\<close>
  (status 500) or \<^verbatim>\<open>"offline"\<close> (the request fails). The other environments differ
  from it in one collaborator that fails.
\<close>

definition example_navigate :: "nav_intent \<Rightarrow> nat \<Rightarrow> nat" where
  "example_navigate intent i =
     (case intent of
        Next \<Rightarrow> min (i + 1) 4
      | Prev \<Rightarrow> i - 1
      | Toggle \<Rightarrow> (if i = 4 then 0 else 4)
      | Latest \<Rightarrow> 4)"

definition example_fetch :: "string \<Rightarrow> string \<Rightarrow> restore_body \<Rightarrow> fetch_outcome" where
  "example_fetch url method body =
     (if body_title body = Some ''offline'' then FetchRejected
      else if body_title body = Some ''reject'' then Response 500
      else Response 200)"

definition example_invalidate ::
    "string \<Rightarrow> (string \<times> string list) list \<Rightarrow> (string \<times> string list) list cache_result" where
  "example_invalidate docId c = Invalidated (filter (\<lambda>kv. fst kv \<noteq> docId) c)"

definition example_env :: "(string \<times> string list) list env" where
  "example_env =
     \<lparr>fetch = example_fetch, mutate = (\<lambda>key. Revalidated),
      invalidateVersions = example_invalidate\<rparr>"

definition failing_cache_env :: "(string \<times> string list) list env" where
  "failing_cache_env =
     \<lparr>fetch = example_fetch, mutate = (\<lambda>key. Revalidated),
      invalidateVersions = (\<lambda>docId c. InvalidateFailed c)\<rparr>"

definition failing_mutate_env :: "(string \<times> string list) list env" where
  "failing_mutate_env =
     \<lparr>fetch = example_fetch, mutate = (\<lambda>key. MutateRejected),
      invalidateVersions = example_invalidate\<rparr>"

definition example_versions :: "version_entry list" where
  "example_versions =
     [\<lparr>v_id = ''v1'', v_content = Some ''first draft'', v_title = Some ''Notes'', v_createdAt = 1000\<rparr>,
      \<lparr>v_id = ''v2'', v_content = None, v_title = Some [], v_createdAt = 2000\<rparr>,
      \<lparr>v_id = ''v3'', v_content = Some ''body'', v_title = Some ''reject'', v_createdAt = 3000\<rparr>,
      \<lparr>v_id = ''v4'', v_content = Some ''body'', v_title = Some ''offline'', v_createdAt = 4000\<rparr>,
      \<lparr>v_id = ''v5'', v_content = Some ''final text'', v_title = Some ''Report'', v_createdAt = 5000\<rparr>]"

definition example_props :: "int \<Rightarrow> nat props" where
  "example_props i =
     \<lparr>handleVersionChange = example_navigate,
      documents = Some example_versions,
      currentVersionIndex = i\<rparr>"

definition example_world :: "(nat, (string \<times> string list) list) world" where
  "example_world =
     \<lparr>document = \<lparr>documentId = ''doc-1'', content = ''final text'', title = ''Report''\<rparr>,
      nav = 2,
      cache = [(''doc-1'', [''v1'', ''v2'', ''v3'', ''v4'', ''v5'']), (''doc-2'', [''w1''])],
      isMutating = False,
      effects = []\<rparr>"

section \<open>The restore button and the calls in flight\<close>

text \<open>
  Source: the button of lines 159-172, \<^verbatim>\<open>onClick={handleRestoreVersion}\<close> and
  \<^verbatim>\<open>disabled={isMutating}\<close>, in one mounted instance of the component.

  The handler is an \<^verbatim>\<open>async\<close> function: a click runs it up to its first \<^verbatim>\<open>await\<close>
  (\<^const>\<open>restore_begin\<close>) and leaves a suspended call behind; the rest
  (\<^const>\<open>restore_settle\<close>) runs when the promise of \<^verbatim>\<open>fetch\<close> settles, and other
  clicks may come in between. A session is the state, the \<^verbatim>\<open>disabled\<close> property of the
  button as it was last rendered, and the list of suspended calls.

  The handler does not read \<^verbatim>\<open>isMutating\<close>: the only guard is the property of the
  button, and a click on a disabled button does not call \<^verbatim>\<open>onClick\<close>. The property is
  the value that \<^verbatim>\<open>isMutating\<close> had at the last commit of React; \<^verbatim>\<open>setIsMutating\<close> only
  queues the update, so that a click that arrives before the commit finds the button as
  it was rendered before. The later \<^verbatim>\<open>await\<close>s of a call (\<^verbatim>\<open>mutate\<close>,
  \<^verbatim>\<open>invalidateVersions\<close>) are not split off.
\<close>

record ('n, 'c) session =
  ui :: "('n, 'c) world"
  disabled :: bool
  inflight :: "('n props \<times> pending_restore) list"

datatype 'n ui_event = Click "'n props" | Commit | Settle nat fetch_outcome

fun session_step ::
    "'c env \<Rightarrow> ('n, 'c) session \<Rightarrow> 'n ui_event \<Rightarrow> ('n, 'c) session" where
  "session_step E ss (Click p) =
     (if disabled ss then ss
      else
        (case restore_begin p (ui ss) of
           (s1, None) \<Rightarrow> ss\<lparr>ui := s1\<rparr>
         | (s1, Some q) \<Rightarrow> ss\<lparr>ui := s1, inflight := inflight ss @ [(p, q)]\<rparr>))"
| "session_step E ss Commit = ss\<lparr>disabled := isMutating (ui ss)\<rparr>"
| "session_step E ss (Settle k outcome) =
     (if k < length (inflight ss)
      then
        ss\<lparr>ui := restore_settle E (fst (inflight ss ! k)) (snd (inflight ss ! k)) outcome (ui ss),
           inflight := take k (inflight ss) @ drop (Suc k) (inflight ss)\<rparr>
      else ss)"

definition session_run ::
    "'c env \<Rightarrow> ('n, 'c) session \<Rightarrow> 'n ui_event list \<Rightarrow> ('n, 'c) session" where
  "session_run E ss evs = foldl (session_step E) ss evs"

text \<open>
  The component as mounted: \<^verbatim>\<open>useState(false)\<close>, the button enabled, and nothing in
  flight.
\<close>

definition mounted :: "('n, 'c) world \<Rightarrow> ('n, 'c) session" where
  "mounted s = \<lparr>ui = s\<lparr>isMutating := False\<rparr>, disabled = False, inflight = []\<rparr>"

text \<open>
  A run in which React commits after every event, before the next one is handled.
\<close>

definition committed_step ::
    "'c env \<Rightarrow> ('n, 'c) session \<Rightarrow> 'n ui_event \<Rightarrow> ('n, 'c) session" where
  "committed_step E ss ev = session_step E (session_step E ss ev) Commit"

definition committed_run ::
    "'c env \<Rightarrow> ('n, 'c) session \<Rightarrow> 'n ui_event list \<Rightarrow> ('n, 'c) session" where
  "committed_run E ss evs = foldl (committed_step E) ss evs"

text \<open>
  What holds of the sessions whose events are all committed: at most one call in flight,
  the flag set exactly then, and the button disabled exactly then.
\<close>

definition one_in_flight :: "('n, 'c) session \<Rightarrow> bool" where
  "one_in_flight ss =
     (length (inflight ss) \<le> 1 \<and> (isMutating (ui ss) = (inflight ss \<noteq> []))
      \<and> disabled ss = isMutating (ui ss))"

section \<open>The tables Document and DocumentVersion\<close>

text \<open>
  Source: \<^verbatim>\<open>packages/db/src/schema.ts\<close>, lines 91-137. A \<^verbatim>\<open>uuid\<close> and a \<^verbatim>\<open>text\<close> are
  strings, a nullable column is an option, a timestamp is a number of milliseconds, a
  \<^verbatim>\<open>jsonb\<close> value is kept as its text. \<^verbatim>\<open>integer\<close> is the 32-bit integer of PostgreSQL,
  which rejects a value out of range (it does not wrap).
\<close>

datatype artifact_kind = KindText | KindCode | KindImage | KindSheet

datatype visibility = Public | Private

record document_row =
  d_id :: string
  d_createdAt :: int
  d_updatedAt :: int
  d_title :: string
  d_content :: "string option"
  d_kind :: artifact_kind
  d_userId :: string
  d_chatId :: "string option"
  d_is_current :: bool
  d_visibility :: visibility
  d_documentVersionId :: "string option"
  d_style :: "string option"
  d_author :: "string option"
  d_slug :: "string option"

record document_version_row =
  dv_id :: string
  dv_documentId :: string
  dv_version :: int
  dv_content :: string
  dv_diffContent :: "string option"
  dv_previousVersionId :: "string option"
  dv_createdAt :: int
  dv_updatedAt :: int

text \<open>
  The values of an insert into DocumentVersion: \<^verbatim>\<open>version\<close> may be left out, and is then
  1 (\<^verbatim>\<open>.default(1)\<close>); the id is given (when it is left out the database draws a random
  one, which is a value of the caller of this model).
\<close>

definition version_values ::
    "string \<Rightarrow> string \<Rightarrow> int option \<Rightarrow> string \<Rightarrow> string option \<Rightarrow> string option \<Rightarrow> int
      \<Rightarrow> document_version_row" where
  "version_values vid docId version body diff prev now =
     \<lparr>dv_id = vid, dv_documentId = docId,
      dv_version = (case version of None \<Rightarrow> 1 | Some n \<Rightarrow> n),
      dv_content = body, dv_diffContent = diff, dv_previousVersionId = prev,
      dv_createdAt = now, dv_updatedAt = now\<rparr>"

text \<open>
  The database: the two tables, in the order of insertion, and the keys of the tables
  \<^verbatim>\<open>user\<close> and \<^verbatim>\<open>Chat\<close> that \<^verbatim>\<open>Document\<close> refers to.
\<close>

record database =
  user_ids :: "string list"
  chat_ids :: "string list"
  tbl_Document :: "document_row list"
  tbl_DocumentVersion :: "document_version_row list"

datatype db_error =
    UniqueViolation string
  | ForeignKeyViolation string
  | NumericValueOutOfRange string

definition int4 :: "int \<Rightarrow> bool" where
  "int4 n = (- 2147483648 \<le> n \<and> n \<le> 2147483647)"

definition initial_database :: "string list \<Rightarrow> string list \<Rightarrow> database" where
  "initial_database us cs =
     \<lparr>user_ids = us, chat_ids = cs, tbl_Document = [], tbl_DocumentVersion = []\<rparr>"

text \<open>
  An insert is accepted when every constraint the schema declares holds of the table with
  the new row in it: the primary key, and the foreign keys. A foreign key is checked when
  the statement ends, so the new row counts among the rows that
  \<^verbatim>\<open>previous_version_id\<close> may refer to. These are all the constraints that the schema
  declares on DocumentVersion.
\<close>

definition insert_DocumentVersion ::
    "database \<Rightarrow> document_version_row \<Rightarrow> db_error + database" where
  "insert_DocumentVersion db r =
     (if \<not> int4 (dv_version r) then Inl (NumericValueOutOfRange ''version'')
      else if dv_id r \<in> set (map dv_id (tbl_DocumentVersion db))
        then Inl (UniqueViolation ''DocumentVersion_pkey'')
      else if dv_documentId r \<notin> set (map d_id (tbl_Document db))
        then Inl (ForeignKeyViolation ''documentId'')
      else if (case dv_previousVersionId r of
                 None \<Rightarrow> False
               | Some prev \<Rightarrow> prev \<notin> set (map dv_id (tbl_DocumentVersion db @ [r])))
        then Inl (ForeignKeyViolation ''previous_version_id'')
      else Inr (db\<lparr>tbl_DocumentVersion := tbl_DocumentVersion db @ [r]\<rparr>))"

definition insert_Document :: "database \<Rightarrow> document_row \<Rightarrow> db_error + database" where
  "insert_Document db r =
     (if d_id r \<in> set (map d_id (tbl_Document db))
        then Inl (UniqueViolation ''Document_pkey'')
      else if d_userId r \<notin> set (user_ids db)
        then Inl (ForeignKeyViolation ''userId'')
      else if (case d_chatId r of None \<Rightarrow> False | Some c \<Rightarrow> c \<notin> set (chat_ids db))
        then Inl (ForeignKeyViolation ''chatId'')
      else if (case d_documentVersionId r of
                 None \<Rightarrow> False
               | Some v \<Rightarrow> v \<notin> set (map dv_id (tbl_DocumentVersion db)))
        then Inl (ForeignKeyViolation ''document_version_id'')
      else Inr (db\<lparr>tbl_Document := tbl_Document db @ [r]\<rparr>))"

text \<open>A sequence of inserts; a rejected statement leaves the database as it is.\<close>

datatype statement =
    InsertDocument document_row
  | InsertDocumentVersion document_version_row

definition execute :: "database \<Rightarrow> statement \<Rightarrow> database" where
  "execute db st =
     (case st of
        InsertDocument r \<Rightarrow> (case insert_Document db r of Inl e \<Rightarrow> db | Inr db' \<Rightarrow> db')
      | InsertDocumentVersion r \<Rightarrow>
          (case insert_DocumentVersion db r of Inl e \<Rightarrow> db | Inr db' \<Rightarrow> db'))"

definition execute_all :: "database \<Rightarrow> statement list \<Rightarrow> database" where
  "execute_all db sts = foldl execute db sts"

text \<open>What the two constraints of DocumentVersion say of a database.\<close>

definition keys_ok :: "database \<Rightarrow> bool" where
  "keys_ok db =
     (distinct (map dv_id (tbl_DocumentVersion db))
      \<and> dv_documentId ` set (tbl_DocumentVersion db) \<subseteq> d_id ` set (tbl_Document db))"

text \<open>An example: one user, one document, and two inserts of a version of it.\<close>

definition example_document :: document_row where
  "example_document =
     \<lparr>d_id = ''doc-1'', d_createdAt = 1000, d_updatedAt = 1000, d_title = ''Report'',
      d_content = Some ''final text'', d_kind = KindText, d_userId = ''user-1'',
      d_chatId = None, d_is_current = True, d_visibility = Private,
      d_documentVersionId = None, d_style = None, d_author = None, d_slug = None\<rparr>"

definition example_statements :: "statement list" where
  "example_statements =
     [InsertDocument example_document,
      InsertDocumentVersion
        (version_values ''v-a'' ''doc-1'' None ''first draft'' None None 2000),
      InsertDocumentVersion
        (version_values ''v-b'' ''doc-1'' None ''second draft'' None None 3000)]"

section \<open>The version store\<close>

text \<open>
  The write path that creates versions is not among the sources: the schema above
  declares the table, and admits rows that no history has (a row may refer to itself as
  its previous version). The operation is therefore taken from section 4.1 of the
  specification, on top of the inserts of the schema.
\<close>

datatype store_error = NotFoundError | ConflictError

definition versions_of :: "database \<Rightarrow> string \<Rightarrow> document_version_row list" where
  "versions_of db docId = filter (\<lambda>r. dv_documentId r = docId) (tbl_DocumentVersion db)"

definition max_version :: "document_version_row list \<Rightarrow> int" where
  "max_version h = foldr (\<lambda>r m. max (dv_version r) m) h 0"

definition latest_version :: "document_version_row list \<Rightarrow> document_version_row option" where
  "latest_version h = find (\<lambda>r. dv_version r = max_version h) h"

definition update_head ::
    "string \<Rightarrow> string \<Rightarrow> string option \<Rightarrow> int \<Rightarrow> document_row \<Rightarrow> document_row" where
  "update_head docId body newTitle now d =
     (if d_id d = docId
      then d\<lparr>d_content := Some body,
             d_title := (case newTitle of None \<Rightarrow> d_title d | Some t \<Rightarrow> t),
             d_updatedAt := now\<rparr>
      else d)"

text \<open>
  Modelled from the spec: \<^verbatim>\<open>createVersion(documentId, content, title?, diffContent?)\<close> of
  the Version Store, whose code is missing from the sources. The document must exist
  (\<^verbatim>\<open>NotFoundError\<close>); the new version number is the maximum of the version numbers of
  the document plus 1 (1 when there is none); \<^verbatim>\<open>previousVersionId\<close> is the id of the
  latest version, or null; the content, the title and \<^verbatim>\<open>updatedAt\<close> of the document are
  updated; an insert that the database rejects is a \<^verbatim>\<open>ConflictError\<close>. The id of the new
  row and the time are arguments.
\<close>

definition createVersion ::
    "database \<Rightarrow> string \<Rightarrow> string \<Rightarrow> string \<Rightarrow> string option \<Rightarrow> string option \<Rightarrow> int
      \<Rightarrow> store_error + database" where
  "createVersion db newId docId body newTitle diff now =
     (if docId \<notin> set (map d_id (tbl_Document db)) then Inl NotFoundError
      else
        let hist = versions_of db docId;
            row = version_values newId docId (Some (max_version hist + 1)) body diff
                    (map_option dv_id (latest_version hist)) now
        in (case insert_DocumentVersion db row of
              Inl e \<Rightarrow> Inl ConflictError
            | Inr db' \<Rightarrow>
                Inr (db'\<lparr>tbl_Document :=
                       map (update_head docId body newTitle now) (tbl_Document db')\<rparr>)))"

text \<open>
  Modelled from the spec: the histories the store builds, by calls that create a document
  (an insert into Document) or a version, from a database without rows; a call that fails
  changes nothing. The code that issues these calls is missing from the sources.
\<close>

datatype store_call =
    NewDocument document_row
  | CreateVersion string string string "string option" "string option" int

definition store_step :: "database \<Rightarrow> store_call \<Rightarrow> database" where
  "store_step db call =
     (case call of
        NewDocument r \<Rightarrow> (case insert_Document db r of Inl e \<Rightarrow> db | Inr db' \<Rightarrow> db')
      | CreateVersion newId docId body newTitle diff now \<Rightarrow>
          (case createVersion db newId docId body newTitle diff now of
             Inl e \<Rightarrow> db
           | Inr db' \<Rightarrow> db'))"

definition store_run :: "database \<Rightarrow> store_call list \<Rightarrow> database" where
  "store_run db calls = foldl store_step db calls"

text \<open>
  Modelled from the spec: following \<^verbatim>\<open>previousVersionId\<close> from a version, with the guard
  on the depth of section 9 as fuel. The result is the list of the versions visited,
  first the one the walk starts from; there is none when the fuel runs out before a
  version without a previous one is reached, or when a link leads nowhere.
\<close>

fun chain_walk ::
    "document_version_row list \<Rightarrow> nat \<Rightarrow> document_version_row
      \<Rightarrow> document_version_row list option" where
  "chain_walk tbl 0 r =
     (case dv_previousVersionId r of None \<Rightarrow> Some [r] | Some prev \<Rightarrow> None)"
| "chain_walk tbl (Suc fuel) r =
     (case dv_previousVersionId r of
        None \<Rightarrow> Some [r]
      | Some prev \<Rightarrow>
          (case find (\<lambda>x. dv_id x = prev) tbl of
             None \<Rightarrow> None
           | Some r' \<Rightarrow> map_option (\<lambda>path. r # path) (chain_walk tbl fuel r')))"

text \<open>
  The shape of a history, in the order of creation: the version at position \<open>i\<close> has the
  number \<open>i + 1\<close>, and its previous version is the one at position \<open>i - 1\<close>, or none
  for the first.
\<close>

definition chain_ok :: "document_version_row list \<Rightarrow> bool" where
  "chain_ok h =
     (\<forall>i < length h.
        dv_version (h ! i) = int i + 1
        \<and> dv_previousVersionId (h ! i) = (if i = 0 then None else Some (dv_id (h ! (i - 1)))))"

definition store_inv :: "database \<Rightarrow> bool" where
  "store_inv db =
     (distinct (map dv_id (tbl_DocumentVersion db)) \<and> (\<forall>d. chain_ok (versions_of db d)))"

text \<open>
  The versions from the first up to a given one, latest first: what a walk from that
  version is to visit.
\<close>

definition version_path :: "database \<Rightarrow> document_version_row \<Rightarrow> document_version_row list" where
  "version_path db r = rev (take (nat (dv_version r)) (versions_of db (dv_documentId r)))"

definition example_calls :: "store_call list" where
  "example_calls =
     [NewDocument example_document,
      CreateVersion ''v-1'' ''doc-1'' ''first draft'' None None 2000,
      CreateVersion ''v-2'' ''doc-1'' ''second draft'' (Some ''Report 2'') None 3000,
      CreateVersion ''v-2'' ''doc-1'' ''same id again'' None None 3500,
      CreateVersion ''v-9'' ''doc-7'' ''no such document'' None None 3600,
      CreateVersion ''v-3'' ''doc-1'' ''third draft'' None None 4000]"

section \<open>The labels of a version\<close>

text \<open>
  Source: \<^verbatim>\<open>version-header.tsx\<close>, lines 107-127, with \<^verbatim>\<open>isToday\<close>, \<^verbatim>\<open>isYesterday\<close>,
  \<^verbatim>\<open>differenceInDays\<close> and \<^verbatim>\<open>format\<close> of the library date-fns, which are modelled by
  what they compute on the local fields of a date.

  A date is its number of milliseconds since 1970-01-01 00:00 in local time, for a time
  zone whose offset is fixed (no daylight saving); an invalid date is not a value of the
  model. The current time, which the source reads with \<^verbatim>\<open>new Date()\<close> and which date-fns
  reads with \<^verbatim>\<open>Date.now()\<close>, is the argument \<open>now\<close>: one value for one rendering.
\<close>

type_synonym date = int

definition ms_per_day :: int where
  "ms_per_day = 86400000"

definition local_day :: "date \<Rightarrow> int" where
  "local_day t = t div ms_per_day"

definition isSameDay :: "date \<Rightarrow> date \<Rightarrow> bool" where
  "isSameDay a b = (local_day a = local_day b)"

definition isToday :: "date \<Rightarrow> date \<Rightarrow> bool" where
  "isToday now d = isSameDay d now"

definition isYesterday :: "date \<Rightarrow> date \<Rightarrow> bool" where
  "isYesterday now d = isSameDay d (now - ms_per_day)"

definition differenceInCalendarDays :: "date \<Rightarrow> date \<Rightarrow> int" where
  "differenceInCalendarDays dateLeft dateRight = local_day dateLeft - local_day dateRight"

definition compareLocalAsc :: "date \<Rightarrow> date \<Rightarrow> int" where
  "compareLocalAsc dateLeft dateRight =
     (if dateLeft < dateRight then - 1 else if dateLeft > dateRight then 1 else 0)"

text \<open>
  \<^verbatim>\<open>differenceInDays\<close>: the number of calendar days between the two dates, less one
  when the last of these days is not full.
\<close>

definition differenceInDays :: "date \<Rightarrow> date \<Rightarrow> int" where
  "differenceInDays dateLeft dateRight =
     (let sign = compareLocalAsc dateLeft dateRight;
          difference = \<bar>differenceInCalendarDays dateLeft dateRight\<bar>;
          shifted = dateLeft - sign * difference * ms_per_day;
          isLastDayNotFull = (if compareLocalAsc shifted dateRight = - sign then 1 else 0)
      in sign * (difference - isLastDayNotFull))"

text \<open>The local fields of a date: the civil date of a day number, and the time of day.\<close>

definition civil_of_day :: "int \<Rightarrow> int \<times> int \<times> int" where
  "civil_of_day z0 =
     (let z = z0 + 719468;
          era = z div 146097;
          doe = z - era * 146097;
          yoe = (doe - doe div 1460 + doe div 36524 - doe div 146096) div 365;
          y = yoe + era * 400;
          doy = doe - (365 * yoe + yoe div 4 - yoe div 100);
          mp = (5 * doy + 2) div 153;
          d = doy - (153 * mp + 2) div 5 + 1;
          m = (if mp < 10 then mp + 3 else mp - 9)
      in (if m \<le> 2 then y + 1 else y, m, d))"

definition day_of_civil :: "int \<Rightarrow> int \<Rightarrow> int \<Rightarrow> int" where
  "day_of_civil y0 m d =
     (let y = (if m \<le> 2 then y0 - 1 else y0);
          era = y div 400;
          yoe = y - era * 400;
          doy = (153 * (if m > 2 then m - 3 else m + 9) + 2) div 5 + d - 1;
          doe = yoe * 365 + yoe div 4 - yoe div 100 + doy
      in era * 146097 + doe - 719468)"

text \<open>\<^verbatim>\<open>new Date(year, month - 1, day, hours, minutes)\<close>.\<close>

definition local_date :: "int \<Rightarrow> int \<Rightarrow> int \<Rightarrow> int \<Rightarrow> int \<Rightarrow> date" where
  "local_date y m d hours minutes =
     day_of_civil y m d * ms_per_day + hours * 3600000 + minutes * 60000"

definition getFullYear :: "date \<Rightarrow> int" where
  "getFullYear t = fst (civil_of_day (local_day t))"

definition getMonth :: "date \<Rightarrow> int" where
  "getMonth t = fst (snd (civil_of_day (local_day t))) - 1"

definition getDate :: "date \<Rightarrow> int" where
  "getDate t = snd (snd (civil_of_day (local_day t)))"

definition getDay :: "date \<Rightarrow> int" where
  "getDay t = (local_day t + 4) mod 7"

definition getHours :: "date \<Rightarrow> int" where
  "getHours t = (t mod ms_per_day) div 3600000"

definition getMinutes :: "date \<Rightarrow> int" where
  "getMinutes t = ((t mod ms_per_day) mod 3600000) div 60000"

text \<open>Decimal numerals, and \<^verbatim>\<open>addLeadingZeros\<close>.\<close>

definition digit_char :: "nat \<Rightarrow> char" where
  "digit_char n = ''0123456789'' ! (n mod 10)"

function string_of_nat :: "nat \<Rightarrow> string" where
  "string_of_nat n =
     (if n < 10 then [digit_char n] else string_of_nat (n div 10) @ [digit_char (n mod 10)])"
  by pat_completeness auto
termination
  by (relation "measure id") auto

declare string_of_nat.simps [simp del]

definition addLeadingZeros :: "nat \<Rightarrow> nat \<Rightarrow> string" where
  "addLeadingZeros n targetLength =
     replicate (targetLength - length (string_of_nat n)) (CHR ''0'') @ string_of_nat n"

text \<open>
  The tokens of the patterns the component uses, and \<^verbatim>\<open>format\<close> in the default locale
  (en-US): \<^verbatim>\<open>EEE\<close> the short name of the day of the week, \<^verbatim>\<open>MMM\<close> the short name of the
  month, \<^verbatim>\<open>d\<close> the day of the month, \<^verbatim>\<open>yyyy\<close> the year of the era on four digits,
  \<^verbatim>\<open>h\<close> the hour on the 12-hour clock, \<^verbatim>\<open>mm\<close> the minutes on two digits, \<^verbatim>\<open>a\<close> AM or
  PM.
\<close>

datatype token = EEE | MMM | Tok_d | Tok_yyyy | Tok_h | Tok_mm | Tok_a | Literal string

definition day_names :: "string list" where
  "day_names = [''Sun'', ''Mon'', ''Tue'', ''Wed'', ''Thu'', ''Fri'', ''Sat'']"

definition month_names :: "string list" where
  "month_names =
     [''Jan'', ''Feb'', ''Mar'', ''Apr'', ''May'', ''Jun'',
      ''Jul'', ''Aug'', ''Sep'', ''Oct'', ''Nov'', ''Dec'']"

definition format_token :: "date \<Rightarrow> token \<Rightarrow> string" where
  "format_token t tok =
     (case tok of
        EEE \<Rightarrow> day_names ! nat (getDay t)
      | MMM \<Rightarrow> month_names ! nat (getMonth t)
      | Tok_d \<Rightarrow> string_of_nat (nat (getDate t))
      | Tok_yyyy \<Rightarrow>
          addLeadingZeros
            (nat (if getFullYear t > 0 then getFullYear t else 1 - getFullYear t)) 4
      | Tok_h \<Rightarrow> string_of_nat (nat (if getHours t mod 12 = 0 then 12 else getHours t mod 12))
      | Tok_mm \<Rightarrow> addLeadingZeros (nat (getMinutes t)) 2
      | Tok_a \<Rightarrow> (if getHours t div 12 \<ge> 1 then ''PM'' else ''AM'')
      | Literal s \<Rightarrow> s)"

definition format :: "date \<Rightarrow> token list \<Rightarrow> string" where
  "format t pattern = concat (map (format_token t) pattern)"

text \<open>Lines 107-115.\<close>

definition formatVersionLabel :: "date \<Rightarrow> date \<Rightarrow> string" where
  "formatVersionLabel now d =
     (if isToday now d then ''Today''
      else if isYesterday now d then ''Yesterday''
      else
        let days = differenceInDays now d
        in if days < 7 then format d [EEE]
           else if days < 60 then format d [MMM, Literal '' '', Tok_d]
           else format d [MMM, Literal '' '', Tok_yyyy])"

text \<open>Lines 117-119.\<close>

definition formatVersionTime :: "date \<Rightarrow> string" where
  "formatVersionTime d = format d [Tok_h, Literal '':'', Tok_mm, Literal '' '', Tok_a]"

text \<open>
  Lines 121-127: the three strings of the header for the version shown, or nothing when
  there is no such version. \<^verbatim>\<open>formatDistance\<close> of date-fns, with the suffix, is a
  parameter.
\<close>

record header_strings =
  dateString :: string
  timeString :: string
  relativeTimeString :: string

definition version_header_strings ::
    "(date \<Rightarrow> date \<Rightarrow> string) \<Rightarrow> date \<Rightarrow> 'n props \<Rightarrow> header_strings option" where
  "version_header_strings formatDistance now p =
     (case documents p of
        None \<Rightarrow> None
      | Some docs \<Rightarrow>
          if docs = [] then None
          else if currentVersionIndex p < 0 \<or> currentVersionIndex p \<ge> int (length docs)
          then None
          else
            let createdAt = v_createdAt (docs ! nat (currentVersionIndex p))
            in Some \<lparr>dateString = formatVersionLabel now createdAt,
                      timeString = formatVersionTime createdAt,
                      relativeTimeString = formatDistance createdAt now\<rparr>)"

text \<open>What the claim calls the last \<open>n\<close> days: less than \<open>n\<close> times 24 hours ago.\<close>

definition within_last_days :: "int \<Rightarrow> date \<Rightarrow> date \<Rightarrow> bool" where
  "within_last_days n now d = (d \<le> now \<and> now - d < n * ms_per_day)"

section \<open>Properties of the restore handler\<close>

lemma not_valid_iff_invalid: "(\<not> valid_index p) = invalid_selection p"
  by (auto simp: valid_index_def invalid_selection_def split: option.splits)

lemma handleRestoreVersion_invalid:
  "\<not> valid_index p \<Longrightarrow>
     handleRestoreVersion E p s = emit (ToastError ''Invalid version selected'') s"
  by (auto simp: handleRestoreVersion_def restore_begin_def valid_index_def
           split: option.splits)

lemma restore_begin_valid:
  "valid_index p \<Longrightarrow>
     restore_begin p s =
       (emit (Fetch ''/api/document'' ''POST'' (selected_body p s)) (s\<lparr>isMutating := True\<rparr>),
        Some \<lparr>p_documentId = documentId (document s),
              p_content = v_content (selected_version p),
              p_title = v_title (selected_version p)\<rparr>)"
  by (auto simp: restore_begin_def valid_index_def selected_version_def selected_body_def
                 restore_request_def Let_def emit_def
           split: option.splits)

lemma handleRestoreVersion_valid:
  "valid_index p \<Longrightarrow>
     handleRestoreVersion E p s =
       restore_settle E p
         \<lparr>p_documentId = documentId (document s),
          p_content = v_content (selected_version p),
          p_title = v_title (selected_version p)\<rparr>
         (store_response E p s)
         (emit (Fetch ''/api/document'' ''POST'' (selected_body p s)) (s\<lparr>isMutating := True\<rparr>))"
  by (simp add: handleRestoreVersion_def restore_begin_valid store_response_def
                restore_request_def selected_body_def)

lemma handleRestoreVersion_failure:
  "valid_index p \<Longrightarrow> \<not> store_call_succeeds E p s \<Longrightarrow>
     handleRestoreVersion E p s =
       s\<lparr>isMutating := False,
         effects := effects s @
           Fetch ''/api/document'' ''POST'' (selected_body p s) #
           (if post_succeeds E p s then [SwrMutate (revalidation_key s)] else []) @
           [ConsoleError ''[Version] Error restoring version:''
              (store_error (store_response E p s)),
            ToastError ''Failed to restore version'']\<rparr>"
  by (auto simp: handleRestoreVersion_valid restore_settle_def store_call_succeeds_def
                 post_succeeds_def revalidation_key_def restore_success_def
                 on_error_def emit_def store_error_def Let_def
           split: fetch_outcome.splits mutate_outcome.splits)

lemma handleRestoreVersion_success:
  "valid_index p \<Longrightarrow> store_call_succeeds E p s \<Longrightarrow>
     handleRestoreVersion E p s =
       s\<lparr>document := (document s)
            \<lparr>content := or_else (v_content (selected_version p)) [],
             title := or_else (v_title (selected_version p)) (title (document s))\<rparr>,
         nav := handleVersionChange p Latest (nav s),
         cache := cache_after (invalidateVersions E (documentId (document s)) (cache s)),
         isMutating := False,
         effects := effects s @
           [Fetch ''/api/document'' ''POST'' (selected_body p s),
            SwrMutate (revalidation_key s),
            CacheInvalidate (documentId (document s)),
            cache_console (documentId (document s))
              (invalidateVersions E (documentId (document s)) (cache s)),
            restored_event p s,
            ToastSuccess ''Version restored successfully'']\<rparr>"
  by (auto simp: handleRestoreVersion_valid restore_settle_def store_call_succeeds_def
                 post_succeeds_def revalidation_key_def
                 restore_success_def invalidate_cache_def emit_def Let_def cache_after_def
                 cache_console_def restored_event_def
           split: fetch_outcome.splits cache_result.splits mutate_outcome.splits)

text \<open>
  Claim C3. When the version list is undefined or empty, or the current index is below 0
  or not below the length of the list, the handler shows the error toast
  \<^verbatim>\<open>Invalid version selected\<close> and returns: that toast is the only effect (no HTTP
  request, no call into the cache), and the document, the navigation state, the cache and
  the busy flag are what they were.
\<close>

theorem restore_invalid_selection_fails_fast:
  assumes "invalid_selection p"
  shows "handleRestoreVersion E p s
           = s\<lparr>effects := effects s @ [ToastError ''Invalid version selected'']\<rparr>
       \<and> new_effects s (handleRestoreVersion E p s) = [ToastError ''Invalid version selected'']
       \<and> \<not> (\<exists>e \<in> set (new_effects s (handleRestoreVersion E p s)). is_fetch e \<or> is_cache_call e)
       \<and> document (handleRestoreVersion E p s) = document s
       \<and> nav (handleRestoreVersion E p s) = nav s
       \<and> cache (handleRestoreVersion E p s) = cache s
       \<and> isMutating (handleRestoreVersion E p s) = isMutating s"
proof -
  have "\<not> valid_index p"
    using assms by (simp add: not_valid_iff_invalid)
  then have "handleRestoreVersion E p s = emit (ToastError ''Invalid version selected'') s"
    by (rule handleRestoreVersion_invalid)
  then show ?thesis
    by (simp add: emit_def new_effects_def is_fetch_def is_cache_call_def)
qed

theorem restore_invalid_selection_witness:
  "invalid_selection (example_props 5)
   \<and> invalid_selection (example_props (-1))
   \<and> invalid_selection ((example_props 0)\<lparr>documents := Some []\<rparr>)
   \<and> invalid_selection ((example_props 0)\<lparr>documents := None\<rparr>)
   \<and> handleRestoreVersion example_env (example_props 5) example_world
       = example_world\<lparr>effects := [ToastError ''Invalid version selected'']\<rparr>"
  using restore_invalid_selection_fails_fast [of "example_props 5" example_env example_world]
  by (simp add: invalid_selection_def example_props_def example_versions_def example_world_def)

text \<open>
  Claim C2. When the index is valid and the store call fails (the promise of \<^verbatim>\<open>fetch\<close>
  rejects, the response is not \<^verbatim>\<open>ok\<close>, or the revalidation that follows an \<^verbatim>\<open>ok\<close>
  response rejects), the document, the navigation state and the cache are exactly what
  they were; the effects of the invocation are the one request (sent once: no retry), the
  revalidation if the response was \<^verbatim>\<open>ok\<close>, the console error and the toast
  \<^verbatim>\<open>Failed to restore version\<close>: the cache is not called, no event is dispatched and no
  success is announced. The busy flag ends cleared.
\<close>

theorem restore_store_failure_leaves_state:
  assumes "valid_index p" and "\<not> store_call_succeeds E p s"
  shows "document (handleRestoreVersion E p s) = document s
       \<and> nav (handleRestoreVersion E p s) = nav s
       \<and> cache (handleRestoreVersion E p s) = cache s
       \<and> isMutating (handleRestoreVersion E p s) = False
       \<and> new_effects s (handleRestoreVersion E p s) =
           Fetch ''/api/document'' ''POST'' (selected_body p s) #
           (if post_succeeds E p s then [SwrMutate (revalidation_key s)] else []) @
           [ConsoleError ''[Version] Error restoring version:''
              (store_error (store_response E p s)),
            ToastError ''Failed to restore version'']
       \<and> \<not> (\<exists>e \<in> set (new_effects s (handleRestoreVersion E p s)).
              is_cache_call e \<or> is_event e \<or> is_toast_success e)
       \<and> length (filter is_fetch (new_effects s (handleRestoreVersion E p s))) = 1"
  using assms
  by (simp add: handleRestoreVersion_failure new_effects_def is_fetch_def is_cache_call_def
        is_event_def is_toast_success_def)

theorem restore_store_failure_witness:
  "valid_index (example_props 2)
   \<and> \<not> store_call_succeeds example_env (example_props 2) example_world
   \<and> valid_index (example_props 3)
   \<and> \<not> store_call_succeeds example_env (example_props 3) example_world
   \<and> handleRestoreVersion example_env (example_props 2) example_world
       = example_world\<lparr>effects :=
           [Fetch ''/api/document'' ''POST''
              \<lparr>body_id = ''doc-1'', body_content = Some ''body'', body_title = Some ''reject''\<rparr>,
            ConsoleError ''[Version] Error restoring version:'' (RestoreFailed 500),
            ToastError ''Failed to restore version'']\<rparr>
   \<and> \<not> store_call_succeeds failing_mutate_env (example_props 0) example_world
   \<and> new_effects example_world
        (handleRestoreVersion failing_mutate_env (example_props 0) example_world)
       = [Fetch ''/api/document'' ''POST''
            \<lparr>body_id = ''doc-1'', body_content = Some ''first draft'',
             body_title = Some ''Notes''\<rparr>,
          SwrMutate ''/api/document?id=doc-1'',
          ConsoleError ''[Version] Error restoring version:'' RevalidationError,
          ToastError ''Failed to restore version'']
   \<and> document (handleRestoreVersion failing_mutate_env (example_props 0) example_world)
       = document example_world"
proof -
  have v2: "valid_index (example_props 2)" and v3: "valid_index (example_props 3)"
    and v0: "valid_index (example_props 0)"
    by (simp_all add: valid_index_def example_props_def example_versions_def)
  have f2: "\<not> store_call_succeeds example_env (example_props 2) example_world"
    and f3: "\<not> store_call_succeeds example_env (example_props 3) example_world"
    and f0: "\<not> store_call_succeeds failing_mutate_env (example_props 0) example_world"
    by (simp_all add: store_call_succeeds_def post_succeeds_def store_response_def
          selected_body_def selected_version_def example_props_def example_versions_def
          example_world_def example_env_def failing_mutate_env_def example_fetch_def
          response_ok_def)
  have "handleRestoreVersion example_env (example_props 2) example_world
       = example_world\<lparr>effects :=
           [Fetch ''/api/document'' ''POST''
              \<lparr>body_id = ''doc-1'', body_content = Some ''body'', body_title = Some ''reject''\<rparr>,
            ConsoleError ''[Version] Error restoring version:'' (RestoreFailed 500),
            ToastError ''Failed to restore version'']\<rparr>"
    unfolding handleRestoreVersion_failure [OF v2 f2]
    by (simp add: post_succeeds_def store_response_def
          selected_body_def selected_version_def example_props_def example_versions_def
          example_world_def example_env_def example_fetch_def response_ok_def store_error_def)
  moreover have "new_effects example_world
        (handleRestoreVersion failing_mutate_env (example_props 0) example_world)
       = [Fetch ''/api/document'' ''POST''
            \<lparr>body_id = ''doc-1'', body_content = Some ''first draft'',
             body_title = Some ''Notes''\<rparr>,
          SwrMutate ''/api/document?id=doc-1'',
          ConsoleError ''[Version] Error restoring version:'' RevalidationError,
          ToastError ''Failed to restore version'']"
    using restore_store_failure_leaves_state [OF v0 f0]
    by (simp add: post_succeeds_def store_response_def revalidation_key_def
          selected_body_def selected_version_def example_props_def example_versions_def
          example_world_def failing_mutate_env_def example_fetch_def response_ok_def
          store_error_def)
  moreover have "document (handleRestoreVersion failing_mutate_env (example_props 0) example_world)
       = document example_world"
    using restore_store_failure_leaves_state [OF v0 f0] by simp
  ultimately show ?thesis
    using v2 v3 f2 f3 f0 by simp
qed

text \<open>
  Claim C1, as amended. When the index is valid and the store call succeeds (the POST
  is answered \<^verbatim>\<open>ok\<close> and the revalidation resolves), the in-memory content becomes
  the content of the version (the empty string when that is \<^verbatim>\<open>null\<close>), the in-memory
  title becomes the title of the version unless that is \<^verbatim>\<open>null\<close> or empty, in which
  case the title is kept; the navigation receives the intent \<^verbatim>\<open>latest\<close>; the cache is
  asked once to invalidate the versions of the document id; and exactly one event
  \<^verbatim>\<open>version-restored\<close> is dispatched, whose detail is the document id with the content
  and the title of the version as they were read.
\<close>

theorem restore_success_updates_state:
  assumes "valid_index p" and "store_call_succeeds E p s"
  shows "content (document (handleRestoreVersion E p s)) =
           (case v_content (selected_version p) of None \<Rightarrow> [] | Some c \<Rightarrow> c)
       \<and> title (document (handleRestoreVersion E p s)) =
           (case v_title (selected_version p) of
              None \<Rightarrow> title (document s)
            | Some t \<Rightarrow> if t = [] then title (document s) else t)
       \<and> documentId (document (handleRestoreVersion E p s)) = documentId (document s)
       \<and> nav (handleRestoreVersion E p s) = handleVersionChange p Latest (nav s)
       \<and> filter is_cache_call (new_effects s (handleRestoreVersion E p s)) =
           [CacheInvalidate (documentId (document s))]
       \<and> cache (handleRestoreVersion E p s) =
           cache_after (invalidateVersions E (documentId (document s)) (cache s))
       \<and> filter is_event (new_effects s (handleRestoreVersion E p s)) =
           [DispatchEvent ''version-restored''
              \<lparr>detail_documentId = documentId (document s),
               detail_content = v_content (selected_version p),
               detail_title = v_title (selected_version p)\<rparr>]"
  using assms
  by (simp add: handleRestoreVersion_success new_effects_def or_else_def is_cache_call_def
        is_event_def cache_console_def restored_event_def
      split: option.splits cache_result.splits)

theorem restore_success_witness:
  "valid_index (example_props 0)
   \<and> store_call_succeeds example_env (example_props 0) example_world
   \<and> document (handleRestoreVersion example_env (example_props 0) example_world) =
       \<lparr>documentId = ''doc-1'', content = ''first draft'', title = ''Notes''\<rparr>
   \<and> nav (handleRestoreVersion example_env (example_props 0) example_world) = 4
   \<and> cache (handleRestoreVersion example_env (example_props 0) example_world) =
       [(''doc-2'', [''w1''])]
   \<and> filter is_event
        (new_effects example_world
           (handleRestoreVersion example_env (example_props 0) example_world)) =
       [DispatchEvent ''version-restored''
          \<lparr>detail_documentId = ''doc-1'', detail_content = Some ''first draft'',
           detail_title = Some ''Notes''\<rparr>]"
proof -
  have v: "valid_index (example_props 0)"
    by (simp add: valid_index_def example_props_def example_versions_def)
  have ok: "store_call_succeeds example_env (example_props 0) example_world"
    by (simp add: store_call_succeeds_def post_succeeds_def revalidation_key_def
          store_response_def selected_body_def
          selected_version_def example_props_def example_versions_def example_world_def
          example_env_def example_fetch_def response_ok_def)
  have "document (handleRestoreVersion example_env (example_props 0) example_world) =
          \<lparr>documentId = ''doc-1'', content = ''first draft'', title = ''Notes''\<rparr>"
    using restore_success_updates_state [OF v ok]
    by (simp add: selected_version_def example_props_def example_versions_def example_world_def)
  moreover have "nav (handleRestoreVersion example_env (example_props 0) example_world) = 4"
    using restore_success_updates_state [OF v ok]
    by (simp add: example_props_def example_navigate_def)
  moreover have "cache (handleRestoreVersion example_env (example_props 0) example_world) =
          [(''doc-2'', [''w1''])]"
    using restore_success_updates_state [OF v ok]
    by (simp add: example_env_def example_invalidate_def example_world_def cache_after_def)
  moreover have "filter is_event
        (new_effects example_world
           (handleRestoreVersion example_env (example_props 0) example_world)) =
       [DispatchEvent ''version-restored''
          \<lparr>detail_documentId = ''doc-1'', detail_content = Some ''first draft'',
           detail_title = Some ''Notes''\<rparr>]"
    using restore_success_updates_state [OF v ok]
    by (simp add: selected_version_def example_props_def example_versions_def example_world_def)
  ultimately show ?thesis
    using v ok by simp
qed

text \<open>
  Claim C1 as it is written says that the in-memory title becomes the title of the
  restored version. A version whose title is the empty string is restored with success,
  and the in-memory title stays \<^verbatim>\<open>Report\<close>.
\<close>

theorem restore_success_title_counterexample:
  "valid_index ((example_props 0)\<lparr>documents := Some
       [\<lparr>v_id = ''v1'', v_content = Some ''restored text'', v_title = Some [],
         v_createdAt = 1000\<rparr>]\<rparr>)
   \<and> store_call_succeeds example_env ((example_props 0)\<lparr>documents := Some
       [\<lparr>v_id = ''v1'', v_content = Some ''restored text'', v_title = Some [],
         v_createdAt = 1000\<rparr>]\<rparr>) example_world
   \<and> v_title (selected_version ((example_props 0)\<lparr>documents := Some
       [\<lparr>v_id = ''v1'', v_content = Some ''restored text'', v_title = Some [],
         v_createdAt = 1000\<rparr>]\<rparr>)) = Some []
   \<and> title (document (handleRestoreVersion example_env ((example_props 0)\<lparr>documents := Some
       [\<lparr>v_id = ''v1'', v_content = Some ''restored text'', v_title = Some [],
         v_createdAt = 1000\<rparr>]\<rparr>) example_world)) = ''Report''
   \<and> Some (title (document (handleRestoreVersion example_env
       ((example_props 0)\<lparr>documents := Some
       [\<lparr>v_id = ''v1'', v_content = Some ''restored text'', v_title = Some [],
         v_createdAt = 1000\<rparr>]\<rparr>) example_world)))
       \<noteq> v_title (selected_version ((example_props 0)\<lparr>documents := Some
       [\<lparr>v_id = ''v1'', v_content = Some ''restored text'', v_title = Some [],
         v_createdAt = 1000\<rparr>]\<rparr>))"
  by (simp add: valid_index_def store_call_succeeds_def post_succeeds_def
        revalidation_key_def store_response_def selected_body_def
        selected_version_def example_props_def example_world_def
        example_env_def example_fetch_def response_ok_def handleRestoreVersion_def
        restore_begin_def restore_settle_def restore_success_def invalidate_cache_def
        example_invalidate_def emit_def restore_request_def or_else_def Let_def)

text \<open>
  Claim C9. Restoring the version whose content and title are those of the in-memory
  document leaves that document as it is (its content and title are those of the
  version), and restoring it again changes nothing more; yet the request is sent to the
  store, the navigation receives \<^verbatim>\<open>latest\<close>, and the cache is asked to invalidate the
  versions of the document.
\<close>

theorem restore_current_version_idempotent:
  assumes "valid_index p" and "store_call_succeeds E p s"
    and "v_content (selected_version p) = Some (content (document s))"
    and "v_title (selected_version p) = Some (title (document s))"
  shows "document (handleRestoreVersion E p s) = document s
       \<and> Some (content (document (handleRestoreVersion E p s))) = v_content (selected_version p)
       \<and> Some (title (document (handleRestoreVersion E p s))) = v_title (selected_version p)
       \<and> document (handleRestoreVersion E p (handleRestoreVersion E p s)) = document s
       \<and> Fetch ''/api/document'' ''POST'' (selected_body p s)
           \<in> set (new_effects s (handleRestoreVersion E p s))
       \<and> nav (handleRestoreVersion E p s) = handleVersionChange p Latest (nav s)
       \<and> CacheInvalidate (documentId (document s))
           \<in> set (new_effects s (handleRestoreVersion E p s))
       \<and> cache (handleRestoreVersion E p s) =
           cache_after (invalidateVersions E (documentId (document s)) (cache s))"
proof -
  let ?s' = "handleRestoreVersion E p s"
  have doc: "document ?s' = document s"
    using assms by (simp add: handleRestoreVersion_success or_else_def)
  have "selected_body p ?s' = selected_body p s"
    by (simp add: selected_body_def doc)
  then have ok': "store_call_succeeds E p ?s'"
    using assms(2) doc
    by (simp add: store_call_succeeds_def post_succeeds_def revalidation_key_def
          store_response_def)
  have again: "document (handleRestoreVersion E p ?s') = document s"
    using assms(1,3,4) ok' doc
    by (simp add: handleRestoreVersion_success [of p E ?s'] or_else_def)
  show ?thesis
    using assms doc again
    by (simp add: handleRestoreVersion_success [of p E s] new_effects_def)
qed

theorem restore_current_version_witness:
  "valid_index (example_props 4)
   \<and> store_call_succeeds example_env (example_props 4) example_world
   \<and> v_content (selected_version (example_props 4)) = Some (content (document example_world))
   \<and> v_title (selected_version (example_props 4)) = Some (title (document example_world))
   \<and> document (handleRestoreVersion example_env (example_props 4) example_world)
       = document example_world
   \<and> nav example_world = 2
   \<and> nav (handleRestoreVersion example_env (example_props 4) example_world) = 4
   \<and> cache (handleRestoreVersion example_env (example_props 4) example_world)
       = [(''doc-2'', [''w1''])]"
proof -
  have v: "valid_index (example_props 4)"
    by (simp add: valid_index_def example_props_def example_versions_def)
  have ok: "store_call_succeeds example_env (example_props 4) example_world"
    by (simp add: store_call_succeeds_def post_succeeds_def revalidation_key_def
          store_response_def selected_body_def
          selected_version_def example_props_def example_versions_def example_world_def
          example_env_def example_fetch_def response_ok_def)
  have c: "v_content (selected_version (example_props 4)) = Some (content (document example_world))"
    by (simp add: selected_version_def example_props_def example_versions_def example_world_def)
  have t: "v_title (selected_version (example_props 4)) = Some (title (document example_world))"
    by (simp add: selected_version_def example_props_def example_versions_def example_world_def)
  have "nav example_world = 2"
    by (simp add: example_world_def)
  moreover have "nav (handleRestoreVersion example_env (example_props 4) example_world) = 4"
    using restore_current_version_idempotent [OF v ok c t]
    by (simp add: example_props_def example_navigate_def)
  moreover have "cache (handleRestoreVersion example_env (example_props 4) example_world)
       = [(''doc-2'', [''w1''])]"
    using restore_current_version_idempotent [OF v ok c t]
    by (simp add: example_env_def example_invalidate_def example_world_def cache_after_def)
  ultimately show ?thesis
    using v ok c t restore_current_version_idempotent [OF v ok c t] by simp
qed

text \<open>
  Claim C10. On a successful restore of a version whose content is \<^verbatim>\<open>null\<close> or empty the
  in-memory content is the empty string; when the title of the version is \<^verbatim>\<open>null\<close> or
  empty the in-memory title keeps its value; the one event dispatched carries the content
  and the title of the version as they were read, so that a \<^verbatim>\<open>null\<close> content in the
  event differs from the in-memory content, and a \<^verbatim>\<open>null\<close> or empty title in the event
  differs from an in-memory title that is not empty.
\<close>

theorem restore_event_carries_unsubstituted_fields:
  assumes "valid_index p" and "store_call_succeeds E p s"
  shows "((v_content (selected_version p) = None \<or> v_content (selected_version p) = Some [])
            \<longrightarrow> content (document (handleRestoreVersion E p s)) = [])
       \<and> ((v_title (selected_version p) = None \<or> v_title (selected_version p) = Some [])
            \<longrightarrow> title (document (handleRestoreVersion E p s)) = title (document s))
       \<and> filter is_event (new_effects s (handleRestoreVersion E p s)) =
           [DispatchEvent ''version-restored''
              \<lparr>detail_documentId = documentId (document s),
               detail_content = v_content (selected_version p),
               detail_title = v_title (selected_version p)\<rparr>]
       \<and> (v_content (selected_version p) = None
            \<longrightarrow> v_content (selected_version p)
                  \<noteq> Some (content (document (handleRestoreVersion E p s))))
       \<and> ((v_title (selected_version p) = None \<or> v_title (selected_version p) = Some [])
            \<and> title (document s) \<noteq> []
            \<longrightarrow> v_title (selected_version p)
                  \<noteq> Some (title (document (handleRestoreVersion E p s))))"
  using assms
  by (auto simp: handleRestoreVersion_success new_effects_def or_else_def is_event_def
        cache_console_def restored_event_def
      split: option.splits cache_result.splits)

theorem restore_event_carries_unsubstituted_fields_witness:
  "valid_index (example_props 1)
   \<and> store_call_succeeds example_env (example_props 1) example_world
   \<and> v_content (selected_version (example_props 1)) = None
   \<and> v_title (selected_version (example_props 1)) = Some []
   \<and> document (handleRestoreVersion example_env (example_props 1) example_world) =
       \<lparr>documentId = ''doc-1'', content = [], title = ''Report''\<rparr>
   \<and> filter is_event
        (new_effects example_world
           (handleRestoreVersion example_env (example_props 1) example_world)) =
       [DispatchEvent ''version-restored''
          \<lparr>detail_documentId = ''doc-1'', detail_content = None, detail_title = Some []\<rparr>]"
proof -
  have v: "valid_index (example_props 1)"
    by (simp add: valid_index_def example_props_def example_versions_def)
  have ok: "store_call_succeeds example_env (example_props 1) example_world"
    by (simp add: store_call_succeeds_def post_succeeds_def revalidation_key_def
          store_response_def selected_body_def
          selected_version_def example_props_def example_versions_def example_world_def
          example_env_def example_fetch_def response_ok_def)
  have c: "v_content (selected_version (example_props 1)) = None"
    by (simp add: selected_version_def example_props_def example_versions_def)
  have t: "v_title (selected_version (example_props 1)) = Some []"
    by (simp add: selected_version_def example_props_def example_versions_def)
  have d: "document (handleRestoreVersion example_env (example_props 1) example_world) =
       \<lparr>documentId = ''doc-1'', content = [], title = ''Report''\<rparr>"
    using v ok c t
    by (simp add: handleRestoreVersion_success or_else_def example_world_def)
  show ?thesis
    using v ok c t d restore_event_carries_unsubstituted_fields [OF v ok]
    by (simp add: example_world_def)
qed

text \<open>
  Claim C8. When the store call succeeds and the invalidation of the cache fails, the
  failure is caught and logged with \<^verbatim>\<open>console.warn\<close>, and the restore goes on: the
  document is updated, the navigation is at \<^verbatim>\<open>latest\<close>, the event is dispatched and the
  success toast is shown; neither the console error nor the failure toast of the outer
  \<^verbatim>\<open>catch\<close> appears.
\<close>

theorem restore_survives_failed_invalidation:
  assumes "valid_index p" and "store_call_succeeds E p s"
    and "invalidateVersions E (documentId (document s)) (cache s) = InvalidateFailed c"
  shows "new_effects s (handleRestoreVersion E p s) =
           [Fetch ''/api/document'' ''POST'' (selected_body p s),
            SwrMutate (revalidation_key s),
            CacheInvalidate (documentId (document s)),
            ConsoleWarn ''[Version] Failed to invalidate cache:'',
            restored_event p s,
            ToastSuccess ''Version restored successfully'']
       \<and> nav (handleRestoreVersion E p s) = handleVersionChange p Latest (nav s)
       \<and> document (handleRestoreVersion E p s) =
           (document s)
             \<lparr>content := or_else (v_content (selected_version p)) [],
              title := or_else (v_title (selected_version p)) (title (document s))\<rparr>
       \<and> cache (handleRestoreVersion E p s) = c
       \<and> isMutating (handleRestoreVersion E p s) = False"
  using assms
  by (simp add: handleRestoreVersion_success new_effects_def cache_console_def cache_after_def)

theorem restore_survives_failed_invalidation_witness:
  "valid_index (example_props 0)
   \<and> store_call_succeeds failing_cache_env (example_props 0) example_world
   \<and> invalidateVersions failing_cache_env (documentId (document example_world))
        (cache example_world) = InvalidateFailed (cache example_world)
   \<and> new_effects example_world
        (handleRestoreVersion failing_cache_env (example_props 0) example_world) =
       [Fetch ''/api/document'' ''POST''
          \<lparr>body_id = ''doc-1'', body_content = Some ''first draft'', body_title = Some ''Notes''\<rparr>,
        SwrMutate ''/api/document?id=doc-1'',
        CacheInvalidate ''doc-1'',
        ConsoleWarn ''[Version] Failed to invalidate cache:'',
        DispatchEvent ''version-restored''
          \<lparr>detail_documentId = ''doc-1'', detail_content = Some ''first draft'',
           detail_title = Some ''Notes''\<rparr>,
        ToastSuccess ''Version restored successfully'']
   \<and> nav (handleRestoreVersion failing_cache_env (example_props 0) example_world) = 4
   \<and> document (handleRestoreVersion failing_cache_env (example_props 0) example_world) =
       \<lparr>documentId = ''doc-1'', content = ''first draft'', title = ''Notes''\<rparr>"
  using restore_survives_failed_invalidation
          [of "example_props 0" failing_cache_env example_world "cache example_world"]
  by (simp add: valid_index_def store_call_succeeds_def post_succeeds_def
        revalidation_key_def store_response_def selected_body_def
        selected_version_def example_props_def example_versions_def example_world_def
        failing_cache_env_def example_fetch_def response_ok_def restored_event_def
        or_else_def example_navigate_def)

section \<open>Properties of the sessions\<close>

lemma restore_begin_None_isMutating:
  "restore_begin p s = (s1, None) \<Longrightarrow> isMutating s1 = isMutating s"
  by (auto simp: restore_begin_def emit_def Let_def split: option.splits if_splits)

lemma restore_begin_Some_isMutating:
  "restore_begin p s = (s1, Some q) \<Longrightarrow> isMutating s1"
  by (auto simp: restore_begin_def emit_def Let_def split: option.splits if_splits)

lemma restore_settle_clears_flag: "\<not> isMutating (restore_settle E p q outcome s)"
  by (simp add: restore_settle_def Let_def)

text \<open>
  The handler has no guard of its own: called in a state whose flag is set, with a valid
  index, it sends the request.
\<close>

lemma restore_begin_ignores_flag:
  "valid_index p \<Longrightarrow> isMutating s \<Longrightarrow>
     snd (restore_begin p s) \<noteq> None
     \<and> effects (fst (restore_begin p s))
         = effects s @ [Fetch ''/api/document'' ''POST'' (selected_body p s)]"
  by (simp add: restore_begin_valid emit_def)

text \<open>
  When React commits after every event, the button does what the flag is there for: at
  most one call is in flight.
\<close>

lemma one_in_flight_committed_step:
  assumes "one_in_flight ss"
  shows "one_in_flight (committed_step E ss ev)"
proof (cases ev)
  case (Click p)
  show ?thesis
  proof (cases "disabled ss")
    case True
    then show ?thesis
      using assms Click by (simp add: committed_step_def one_in_flight_def)
  next
    case False
    have inv: "disabled ss = isMutating (ui ss)"
      "isMutating (ui ss) = (inflight ss \<noteq> [])"
      using assms unfolding one_in_flight_def by blast+
    have flag: "\<not> isMutating (ui ss)"
      using False inv(1) by blast
    have idle: "inflight ss = []"
      using flag inv(2) by blast
    obtain s1 r where b: "restore_begin p (ui ss) = (s1, r)"
      by (cases "restore_begin p (ui ss)")
    show ?thesis
    proof (cases r)
      case None
      then have "isMutating s1 = isMutating (ui ss)"
        using b restore_begin_None_isMutating by blast
      then show ?thesis
        using False idle flag b None Click
        by (simp add: committed_step_def one_in_flight_def)
    next
      case (Some q)
      then have "isMutating s1"
        using b restore_begin_Some_isMutating by blast
      then show ?thesis
        using False idle b Some Click
        by (simp add: committed_step_def one_in_flight_def)
    qed
  qed
next
  case Commit
  then show ?thesis
    using assms by (simp add: committed_step_def one_in_flight_def)
next
  case (Settle k outcome)
  show ?thesis
  proof (cases "k < length (inflight ss)")
    case True
    then have "k = 0" and "length (inflight ss) = 1"
      using assms by (auto simp: one_in_flight_def)
    then show ?thesis
      using Settle True
      by (simp add: committed_step_def one_in_flight_def restore_settle_clears_flag)
  next
    case False
    then show ?thesis
      using assms Settle by (simp add: committed_step_def one_in_flight_def)
  qed
qed

lemma one_in_flight_committed_run:
  "one_in_flight ss \<Longrightarrow> one_in_flight (committed_run E ss evs)"
  unfolding committed_run_def
  by (induction evs arbitrary: ss) (simp_all add: one_in_flight_committed_step)

lemma one_in_flight_mounted: "one_in_flight (mounted s)"
  by (simp add: one_in_flight_def mounted_def)

lemma committed_run_one_in_flight:
  "length (inflight (committed_run E (mounted s) evs)) \<le> 1
   \<and> isMutating (ui (committed_run E (mounted s) evs))
       = (inflight (committed_run E (mounted s) evs) \<noteq> [])"
  using one_in_flight_committed_run [OF one_in_flight_mounted, of E s evs]
  by (simp add: one_in_flight_def)

text \<open>
  One click on an idle component, followed by the settling of its request with the answer
  of the endpoint, is one run of the handler.
\<close>

lemma click_then_settle_is_handler:
  assumes "\<not> isMutating s" and "valid_index p"
  shows "ui (session_run E \<lparr>ui = s, disabled = False, inflight = []\<rparr>
               [Click p, Settle 0 (store_response E p s)])
         = handleRestoreVersion E p s"
  using assms
  by (simp add: session_run_def restore_begin_valid handleRestoreVersion_valid)


section \<open>Properties of the schema\<close>

lemma insert_DocumentVersion_ids:
  "insert_DocumentVersion db r = Inr db' \<Longrightarrow>
     distinct (map dv_id (tbl_DocumentVersion db)) \<Longrightarrow>
     distinct (map dv_id (tbl_DocumentVersion db'))"
  by (auto simp: insert_DocumentVersion_def split: if_splits)

lemma insert_DocumentVersion_documents:
  "insert_DocumentVersion db r = Inr db' \<Longrightarrow>
     tbl_Document db' = tbl_Document db
     \<and> tbl_DocumentVersion db' = tbl_DocumentVersion db @ [r]
     \<and> dv_documentId r \<in> set (map d_id (tbl_Document db))"
  by (auto simp: insert_DocumentVersion_def split: if_splits)

lemma insert_Document_versions:
  "insert_Document db r = Inr db' \<Longrightarrow>
     tbl_DocumentVersion db' = tbl_DocumentVersion db
     \<and> tbl_Document db' = tbl_Document db @ [r]"
  by (auto simp: insert_Document_def split: if_splits)

lemma keys_ok_execute: "keys_ok db \<Longrightarrow> keys_ok (execute db st)"
proof (cases st)
  case (InsertDocument r)
  assume ok: "keys_ok db"
  show ?thesis
  proof (cases "insert_Document db r")
    case (Inl e)
    then show ?thesis using ok InsertDocument by (simp add: execute_def)
  next
    case (Inr db')
    then show ?thesis
      using ok InsertDocument insert_Document_versions [OF Inr]
      by (auto simp: execute_def keys_ok_def)
  qed
next
  case (InsertDocumentVersion r)
  assume ok: "keys_ok db"
  show ?thesis
  proof (cases "insert_DocumentVersion db r")
    case (Inl e)
    then show ?thesis using ok InsertDocumentVersion by (simp add: execute_def)
  next
    case (Inr db')
    then show ?thesis
      using ok InsertDocumentVersion insert_DocumentVersion_documents [OF Inr]
        insert_DocumentVersion_ids [OF Inr]
      by (auto simp: execute_def keys_ok_def)
  qed
qed

lemma keys_ok_execute_all: "keys_ok db \<Longrightarrow> keys_ok (execute_all db sts)"
  unfolding execute_all_def
  by (induction sts arbitrary: db) (simp_all add: keys_ok_execute)

lemma keys_ok_initial: "keys_ok (initial_database us cs)"
  by (simp add: keys_ok_def initial_database_def)

text \<open>
  Claim C4, as amended. Whatever rows are inserted, the ids of the rows of
  DocumentVersion are pairwise distinct (the primary key), and every row belongs to a row
  of Document (the foreign key): these are the constraints of the schema, and the pair
  (documentId, version) is not among them.
\<close>

theorem document_version_primary_key:
  "distinct (map dv_id (tbl_DocumentVersion (execute_all (initial_database us cs) sts)))
   \<and> dv_documentId ` set (tbl_DocumentVersion (execute_all (initial_database us cs) sts))
       \<subseteq> d_id ` set (tbl_Document (execute_all (initial_database us cs) sts))"
proof -
  have "keys_ok (execute_all (initial_database us cs) sts)"
    by (rule keys_ok_execute_all [OF keys_ok_initial])
  then show ?thesis
    by (simp add: keys_ok_def)
qed

text \<open>
  Claim C4 as it is written: no two rows of a document have the same version number. Two
  inserts for the same document that leave \<^verbatim>\<open>version\<close> to its default are both
  accepted, and both rows have version 1.
\<close>

theorem document_version_pair_counterexample:
  "map (\<lambda>r. (dv_id r, dv_documentId r, dv_version r))
     (tbl_DocumentVersion (execute_all (initial_database [''user-1''] []) example_statements))
     = [(''v-a'', ''doc-1'', 1), (''v-b'', ''doc-1'', 1)]
   \<and> \<not> distinct (map (\<lambda>r. (dv_documentId r, dv_version r))
     (tbl_DocumentVersion (execute_all (initial_database [''user-1''] []) example_statements)))"
  by (simp add: execute_all_def execute_def example_statements_def example_document_def
        initial_database_def insert_Document_def insert_DocumentVersion_def version_values_def
        int4_def)

text \<open>
  The constraints do not order the versions of a document: a row that names itself as its
  previous version, with any version number, is accepted.
\<close>

lemma schema_admits_self_reference:
  "tbl_DocumentVersion
     (execute_all (initial_database [''user-1''] [])
        [InsertDocument example_document,
         InsertDocumentVersion
           (version_values ''v-a'' ''doc-1'' (Some 7) ''text'' None (Some ''v-a'') 2000)])
   = [version_values ''v-a'' ''doc-1'' (Some 7) ''text'' None (Some ''v-a'') 2000]"
  by (simp add: execute_all_def execute_def example_document_def initial_database_def
        insert_Document_def insert_DocumentVersion_def version_values_def int4_def)

section \<open>Properties of the version store\<close>

lemma max_version_ge: "r \<in> set h \<Longrightarrow> dv_version r \<le> max_version h"
  unfolding max_version_def by (induction h) auto

lemma max_version_nonneg: "0 \<le> max_version h"
  unfolding max_version_def by (induction h) auto

lemma max_version_le: "(\<And>r. r \<in> set h \<Longrightarrow> dv_version r \<le> n) \<Longrightarrow> 0 \<le> n \<Longrightarrow> max_version h \<le> n"
  unfolding max_version_def by (induction h) auto

lemma chain_ok_max_version:
  assumes "chain_ok h"
  shows "max_version h = int (length h)"
proof (rule antisym)
  show "max_version h \<le> int (length h)"
  proof (rule max_version_le)
    fix r assume "r \<in> set h"
    then obtain i where "i < length h" "h ! i = r" by (auto simp: in_set_conv_nth)
    then show "dv_version r \<le> int (length h)"
      using assms by (auto simp: chain_ok_def)
  qed simp
next
  show "int (length h) \<le> max_version h"
  proof (cases "h = []")
    case True
    then show ?thesis by (simp add: max_version_def)
  next
    case False
    then have "length h - 1 < length h" by simp
    then have "dv_version (h ! (length h - 1)) = int (length h - 1) + 1"
      using assms unfolding chain_ok_def by blast
    moreover have "h ! (length h - 1) \<in> set h" using False by simp
    ultimately show ?thesis
      using max_version_ge [of "h ! (length h - 1)" h] False by (simp add: of_nat_diff)
  qed
qed

lemma chain_ok_latest_version:
  assumes "chain_ok h"
  shows "latest_version h = (if h = [] then None else Some (last h))"
proof (cases "h = []")
  case True
  then show ?thesis by (simp add: latest_version_def)
next
  case False
  let ?n = "length h"
  have pos: "Suc (?n - 1) = ?n" using False by simp
  have m: "max_version h = int ?n" by (rule chain_ok_max_version [OF assms])
  have ver: "\<And>i. i < ?n \<Longrightarrow> dv_version (h ! i) = int i + 1"
    using assms by (simp add: chain_ok_def)
  have "find (\<lambda>r. dv_version r = int ?n) h = Some (h ! (?n - 1))"
    unfolding find_Some_iff
  proof (intro exI [of _ "?n - 1"] conjI allI impI)
    show "?n - 1 < ?n" using False by simp
    show "dv_version (h ! (?n - 1)) = int ?n"
      using ver [of "?n - 1"] pos by (metis of_nat_Suc add.commute lessI)
    show "h ! (?n - 1) = h ! (?n - 1)" ..
    fix j assume "j < ?n - 1"
    then show "dv_version (h ! j) \<noteq> int ?n"
      using ver [of j] by simp
  qed
  then show ?thesis
    using False m by (simp add: latest_version_def last_conv_nth)
qed

lemma chain_ok_snoc:
  assumes "chain_ok h"
    and "dv_version r = int (length h) + 1"
    and "dv_previousVersionId r = (if h = [] then None else Some (dv_id (last h)))"
  shows "chain_ok (h @ [r])"
  unfolding chain_ok_def
proof (intro allI impI)
  fix i assume "i < length (h @ [r])"
  then consider "i < length h" | "i = length h" by fastforce
  then show "dv_version ((h @ [r]) ! i) = int i + 1
      \<and> dv_previousVersionId ((h @ [r]) ! i)
          = (if i = 0 then None else Some (dv_id ((h @ [r]) ! (i - 1))))"
  proof cases
    case 1
    then have "i - 1 < length h" by simp
    then show ?thesis
      using assms(1) 1 by (simp add: chain_ok_def nth_append)
  next
    case 2
    then show ?thesis
      using assms(2,3) by (auto simp: nth_append last_conv_nth)
  qed
qed


lemma versions_of_append:
  "versions_of (db\<lparr>tbl_DocumentVersion := tbl_DocumentVersion db @ [r]\<rparr>) d
     = versions_of db d @ (if dv_documentId r = d then [r] else [])"
  by (simp add: versions_of_def)

lemma versions_of_Document_update [simp]:
  "versions_of (db\<lparr>tbl_Document := ds\<rparr>) d = versions_of db d"
  by (simp add: versions_of_def)

lemma store_inv_createVersion:
  assumes inv: "store_inv db"
    and ok: "createVersion db newId docId body newTitle diff now = Inr db'"
  shows "store_inv db'"
proof -
  let ?h = "versions_of db docId"
  let ?row = "version_values newId docId (Some (max_version ?h + 1)) body diff
                (map_option dv_id (latest_version ?h)) now"
  from ok obtain db1 where ins: "insert_DocumentVersion db ?row = Inr db1"
    and db': "db' = db1\<lparr>tbl_Document := map (update_head docId body newTitle now) (tbl_Document db1)\<rparr>"
    by (auto simp: createVersion_def Let_def split: if_splits sum.splits)
  have tbl1: "tbl_DocumentVersion db1 = tbl_DocumentVersion db @ [?row]"
    using insert_DocumentVersion_documents [OF ins] by simp
  have d1: "distinct (map dv_id (tbl_DocumentVersion db1))"
    using insert_DocumentVersion_ids [OF ins] inv by (simp add: store_inv_def)
  have h_ok: "chain_ok ?h"
    using inv by (simp add: store_inv_def)
  have row_doc: "dv_documentId ?row = docId"
    by (simp add: version_values_def)
  have row_ver: "dv_version ?row = int (length ?h) + 1"
    by (simp add: version_values_def chain_ok_max_version [OF h_ok])
  have row_prev: "dv_previousVersionId ?row = (if ?h = [] then None else Some (dv_id (last ?h)))"
    by (simp add: version_values_def chain_ok_latest_version [OF h_ok])
  have "chain_ok (versions_of db1 d)" for d
  proof (cases "d = docId")
    case True
    have "versions_of db1 d = ?h @ [?row]"
      using True row_doc tbl1 by (simp add: versions_of_def)
    then show ?thesis
      using chain_ok_snoc [OF h_ok row_ver row_prev] by simp
  next
    case False
    have "versions_of db1 d = versions_of db d"
      using False row_doc tbl1 by (simp add: versions_of_def)
    then show ?thesis
      using inv by (simp add: store_inv_def)
  qed
  then show ?thesis
    using d1 db' by (simp add: store_inv_def)
qed

lemma store_inv_step: "store_inv db \<Longrightarrow> store_inv (store_step db call)"
proof (cases call)
  case (NewDocument r)
  assume inv: "store_inv db"
  show ?thesis
  proof (cases "insert_Document db r")
    case (Inl e)
    then show ?thesis using inv NewDocument by (simp add: store_step_def)
  next
    case (Inr db')
    then show ?thesis
      using inv NewDocument insert_Document_versions [OF Inr]
      by (simp add: store_step_def store_inv_def versions_of_def)
  qed
next
  case (CreateVersion newId docId body newTitle diff now)
  assume inv: "store_inv db"
  show ?thesis
  proof (cases "createVersion db newId docId body newTitle diff now")
    case (Inl e)
    then show ?thesis using inv CreateVersion by (simp add: store_step_def)
  next
    case (Inr db')
    then show ?thesis
      using store_inv_createVersion [OF inv Inr] CreateVersion by (simp add: store_step_def)
  qed
qed

lemma store_inv_run: "store_inv db \<Longrightarrow> store_inv (store_run db calls)"
  unfolding store_run_def
  by (induction calls arbitrary: db) (simp_all add: store_inv_step)

lemma store_inv_initial: "store_inv (initial_database us cs)"
  by (simp add: store_inv_def initial_database_def versions_of_def chain_ok_def)

lemma find_by_id:
  "distinct (map dv_id tbl) \<Longrightarrow> x \<in> set tbl \<Longrightarrow> find (\<lambda>y. dv_id y = dv_id x) tbl = Some x"
  by (induction tbl) auto

lemma chain_walk_history:
  assumes d: "distinct (map dv_id tbl)"
    and sub: "set h \<subseteq> set tbl"
    and ok: "chain_ok h"
  shows "i < length h \<Longrightarrow>
           chain_walk tbl fuel (h ! i) = (if i \<le> fuel then Some (rev (take (Suc i) h)) else None)"
proof (induction i arbitrary: fuel)
  case 0
  then have "dv_previousVersionId (h ! 0) = None"
    using ok by (simp add: chain_ok_def)
  moreover have "take (Suc 0) h = [h ! 0]"
    using 0 by (cases h) simp_all
  ultimately show ?case
    by (cases fuel) simp_all
next
  case (Suc j)
  then have j: "j < length h" by simp
  have prev: "dv_previousVersionId (h ! Suc j) = Some (dv_id (h ! j))"
    using ok Suc.prems by (simp add: chain_ok_def)
  have "h ! j \<in> set tbl"
    using sub j by auto
  then have f: "find (\<lambda>x. dv_id x = dv_id (h ! j)) tbl = Some (h ! j)"
    by (rule find_by_id [OF d])
  have t: "rev (take (Suc (Suc j)) h) = h ! Suc j # rev (take (Suc j) h)"
    using Suc.prems by (simp add: take_Suc_conv_app_nth)
  show ?case
  proof (cases fuel)
    case 0
    then show ?thesis using prev by simp
  next
    case (Suc n)
    then show ?thesis
      using prev f t Suc.IH [OF j, of n] by simp
  qed
qed


lemma versions_of_member:
  "r \<in> set (tbl_DocumentVersion db) \<Longrightarrow> r \<in> set (versions_of db (dv_documentId r))"
  by (simp add: versions_of_def)

lemma versions_of_subset: "set (versions_of db d) \<subseteq> set (tbl_DocumentVersion db)"
  by (auto simp: versions_of_def)

lemma versions_of_document: "x \<in> set (versions_of db d) \<Longrightarrow> dv_documentId x = d"
  by (simp add: versions_of_def)

lemma history_position:
  assumes "store_inv db" and "r \<in> set (tbl_DocumentVersion db)"
  obtains i where "i < length (versions_of db (dv_documentId r))"
    and "versions_of db (dv_documentId r) ! i = r"
    and "dv_version r = int i + 1"
    and "dv_previousVersionId r
           = (if i = 0 then None else Some (dv_id (versions_of db (dv_documentId r) ! (i - 1))))"
proof -
  let ?h = "versions_of db (dv_documentId r)"
  obtain i where i: "i < length ?h" "?h ! i = r"
    using versions_of_member [OF assms(2)] by (auto simp: in_set_conv_nth)
  have "chain_ok ?h"
    using assms(1) by (simp add: store_inv_def)
  then have "dv_version (?h ! i) = int i + 1"
    and "dv_previousVersionId (?h ! i) = (if i = 0 then None else Some (dv_id (?h ! (i - 1))))"
    using i(1) by (simp_all add: chain_ok_def)
  then show thesis
    using i that by simp
qed

lemma same_id_same_row:
  "distinct (map dv_id tbl) \<Longrightarrow> x \<in> set tbl \<Longrightarrow> y \<in> set tbl \<Longrightarrow> dv_id x = dv_id y
     \<Longrightarrow> x = y"
  by (meson distinct_map inj_onD)

lemma store_inv_previous:
  assumes inv: "store_inv db" and r: "r \<in> set (tbl_DocumentVersion db)"
    and prev: "dv_previousVersionId r = Some p"
  shows "\<exists>r' \<in> set (tbl_DocumentVersion db).
           dv_id r' = p \<and> dv_documentId r' = dv_documentId r
           \<and> dv_version r' = dv_version r - 1 \<and> r' \<noteq> r"
proof -
  let ?h = "versions_of db (dv_documentId r)"
  obtain i where i: "i < length ?h" "?h ! i = r" "dv_version r = int i + 1"
    "dv_previousVersionId r = (if i = 0 then None else Some (dv_id (?h ! (i - 1))))"
    using history_position [OF inv r] by blast
  from prev i(4) have pos: "i \<noteq> 0" and p: "p = dv_id (?h ! (i - 1))"
    by (auto split: if_splits)
  have j: "i - 1 < length ?h" using i(1) by simp
  have "chain_ok ?h" using inv by (simp add: store_inv_def)
  then have v: "dv_version (?h ! (i - 1)) = int (i - 1) + 1"
    using j by (simp add: chain_ok_def)
  have mem: "?h ! (i - 1) \<in> set ?h" using j by simp
  have "?h ! (i - 1) \<in> set (tbl_DocumentVersion db)"
    using mem versions_of_subset by blast
  moreover have "dv_documentId (?h ! (i - 1)) = dv_documentId r"
    using mem by (rule versions_of_document)
  moreover have "dv_version (?h ! (i - 1)) = dv_version r - 1"
    using v i(3) pos by (simp add: of_nat_diff)
  moreover from this have "?h ! (i - 1) \<noteq> r" by auto
  ultimately show ?thesis
    using p by blast
qed

lemma store_inv_no_branch:
  assumes inv: "store_inv db"
    and r: "r \<in> set (tbl_DocumentVersion db)" and r2: "r2 \<in> set (tbl_DocumentVersion db)"
    and same: "dv_previousVersionId r2 = dv_previousVersionId r"
    and some: "dv_previousVersionId r \<noteq> None"
  shows "r2 = r"
proof -
  obtain p where p: "dv_previousVersionId r = Some p" using some by auto
  obtain a where a: "a \<in> set (tbl_DocumentVersion db)" "dv_id a = p"
    "dv_documentId a = dv_documentId r" "dv_version a = dv_version r - 1"
    using store_inv_previous [OF inv r p] by blast
  obtain b where b: "b \<in> set (tbl_DocumentVersion db)" "dv_id b = p"
    "dv_documentId b = dv_documentId r2" "dv_version b = dv_version r2 - 1"
    using store_inv_previous [OF inv r2] same p by metis
  have d: "distinct (map dv_id (tbl_DocumentVersion db))"
    using inv by (simp add: store_inv_def)
  have "a = b"
    using same_id_same_row [OF d a(1) b(1)] a(2) b(2) by simp
  then have doc: "dv_documentId r2 = dv_documentId r" and ver: "dv_version r2 = dv_version r"
    using a b by simp_all
  let ?h = "versions_of db (dv_documentId r)"
  obtain i where i: "i < length ?h" "?h ! i = r" "dv_version r = int i + 1"
    using history_position [OF inv r] by blast
  obtain k where k: "k < length ?h" "?h ! k = r2" "dv_version r2 = int k + 1"
    using history_position [OF inv r2] doc by metis
  have "i = k" using ver i(3) k(3) by simp
  then show ?thesis using i(2) k(2) by simp
qed

lemma store_inv_walk:
  assumes inv: "store_inv db" and r: "r \<in> set (tbl_DocumentVersion db)"
  shows "chain_walk (tbl_DocumentVersion db) fuel r =
           (if nat (dv_version r) - 1 \<le> fuel
            then Some (rev (take (nat (dv_version r)) (versions_of db (dv_documentId r))))
            else None)"
proof -
  let ?h = "versions_of db (dv_documentId r)"
  obtain i where i: "i < length ?h" "?h ! i = r" "dv_version r = int i + 1"
    using history_position [OF inv r] by blast
  have d: "distinct (map dv_id (tbl_DocumentVersion db))"
    and ok: "chain_ok ?h"
    using inv by (simp_all add: store_inv_def)
  have n: "nat (dv_version r) = Suc i" using i(3) by simp
  show ?thesis
    using chain_walk_history [OF d versions_of_subset ok i(1), of fuel] i(2) n by simp
qed

lemma store_inv_path:
  assumes inv: "store_inv db" and r: "r \<in> set (tbl_DocumentVersion db)"
  defines "path \<equiv> rev (take (nat (dv_version r)) (versions_of db (dv_documentId r)))"
  shows "length path = nat (dv_version r)"
    and "distinct (map dv_id path)"
    and "map dv_version path = rev (map int [1..<Suc (nat (dv_version r))])"
    and "hd path = r"
    and "dv_version (last path) = 1"
    and "dv_previousVersionId (last path) = None"
proof -
  let ?h = "versions_of db (dv_documentId r)"
  obtain i where i: "i < length ?h" "?h ! i = r" "dv_version r = int i + 1"
    using history_position [OF inv r] by blast
  have n: "nat (dv_version r) = Suc i" using i(3) by simp
  have ok: "chain_ok ?h" using inv by (simp add: store_inv_def)
  have d: "distinct (map dv_id (tbl_DocumentVersion db))"
    using inv by (simp add: store_inv_def)
  have dh: "distinct (map dv_id ?h)"
    unfolding versions_of_def using d by (rule distinct_map_filter)
  show "length path = nat (dv_version r)"
    using i(1) n by (simp add: path_def)
  show "distinct (map dv_id path)"
    using dh by (simp add: path_def distinct_take take_map [symmetric] rev_map [symmetric])
  have "map dv_version (take (Suc i) ?h) = map int [1..<Suc (Suc i)]"
  proof (rule nth_equalityI)
    show "length (map dv_version (take (Suc i) ?h)) = length (map int [1..<Suc (Suc i)])"
      using i(1) by simp
    fix k assume "k < length (map dv_version (take (Suc i) ?h))"
    then have k: "k < Suc i" by simp
    then have "dv_version (?h ! k) = int k + 1"
      using ok i(1) by (simp add: chain_ok_def)
    then show "map dv_version (take (Suc i) ?h) ! k = map int [1..<Suc (Suc i)] ! k"
      using k i(1) by (simp add: nth_map_upt [symmetric] del: upt_Suc)
  qed
  then have "rev (map dv_version (take (Suc i) ?h)) = rev (map int [1..<Suc (Suc i)])"
    by (rule arg_cong)
  then show "map dv_version path = rev (map int [1..<Suc (nat (dv_version r))])"
    by (simp only: path_def n rev_map)
  have t: "take (Suc i) ?h = take i ?h @ [r]"
    using i(1,2) by (simp add: take_Suc_conv_app_nth)
  show "hd path = r"
    by (simp add: path_def n t)
  have "0 < length ?h" using i(1) by linarith
  then have ne: "?h \<noteq> []" by simp
  have l: "last path = ?h ! 0"
    using ne by (simp add: path_def n last_rev hd_conv_nth)
  from \<open>0 < length ?h\<close> show "dv_version (last path) = 1" and "dv_previousVersionId (last path) = None"
    using ok l by (simp_all add: chain_ok_def)
qed

lemma example_store_table:
  "tbl_DocumentVersion (store_run (initial_database [''user-1''] []) example_calls) =
     [version_values ''v-1'' ''doc-1'' (Some 1) ''first draft'' None None 2000,
      version_values ''v-2'' ''doc-1'' (Some 2) ''second draft'' None (Some ''v-1'') 3000,
      version_values ''v-3'' ''doc-1'' (Some 3) ''third draft'' None (Some ''v-2'') 4000]"
  by (simp add: store_run_def store_step_def example_calls_def example_document_def
        initial_database_def insert_Document_def createVersion_def insert_DocumentVersion_def
        versions_of_def max_version_def latest_version_def version_values_def int4_def
        update_head_def Let_def)

text \<open>
  Claim C5, for the histories that \<^const>\<open>createVersion\<close> builds. Let \<open>r\<close> be a version
  in the store after any calls. Its number is at least 1, and it has no previous version
  exactly when its number is 1. A previous version is a row of the same document, other
  than \<open>r\<close>, whose number is the number of \<open>r\<close> minus 1 (so no version refers to
  itself or to a later one, and the numbers grow by exactly 1 along the chain). No other
  version has the same previous version (the chain does not branch). Following the links
  from \<open>r\<close> returns exactly when the fuel is at least the number of \<open>r\<close> minus 1
  steps; the versions visited are as many as the number of \<open>r\<close>, start with \<open>r\<close>,
  are pairwise distinct, carry the numbers down to 1, and end with a version 1 that has no
  previous version.
\<close>

theorem version_chain:
  assumes "db = store_run (initial_database us cs) calls"
    and "r \<in> set (tbl_DocumentVersion db)"
  shows "1 \<le> dv_version r
       \<and> (dv_previousVersionId r = None) = (dv_version r = 1)
       \<and> (\<forall>p. dv_previousVersionId r = Some p \<longrightarrow>
             (\<exists>r' \<in> set (tbl_DocumentVersion db). dv_id r' = p)
             \<and> (\<forall>r' \<in> set (tbl_DocumentVersion db). dv_id r' = p \<longrightarrow>
                   r' \<noteq> r \<and> dv_documentId r' = dv_documentId r
                   \<and> dv_version r' = dv_version r - 1))
       \<and> (\<forall>r2 \<in> set (tbl_DocumentVersion db).
             dv_previousVersionId r2 = dv_previousVersionId r \<and> dv_previousVersionId r \<noteq> None
               \<longrightarrow> r2 = r)
       \<and> (\<forall>fuel. chain_walk (tbl_DocumentVersion db) fuel r =
             (if nat (dv_version r) - 1 \<le> fuel then Some (version_path db r) else None))
       \<and> length (version_path db r) = nat (dv_version r)
       \<and> hd (version_path db r) = r
       \<and> distinct (map dv_id (version_path db r))
       \<and> map dv_version (version_path db r) = rev (map int [1..<Suc (nat (dv_version r))])
       \<and> dv_version (last (version_path db r)) = 1
       \<and> dv_previousVersionId (last (version_path db r)) = None"
proof -
  have inv: "store_inv db"
    unfolding assms(1) by (rule store_inv_run [OF store_inv_initial])
  have d: "distinct (map dv_id (tbl_DocumentVersion db))"
    using inv by (simp add: store_inv_def)
  note r = assms(2)
  obtain i where i: "dv_version r = int i + 1"
    "dv_previousVersionId r
       = (if i = 0 then None else Some (dv_id (versions_of db (dv_documentId r) ! (i - 1))))"
    using history_position [OF inv r] by blast
  have c1: "1 \<le> dv_version r"
    using i(1) by simp
  have c2: "(dv_previousVersionId r = None) = (dv_version r = 1)"
    using i by simp
  have c3: "(\<exists>r' \<in> set (tbl_DocumentVersion db). dv_id r' = p)
      \<and> (\<forall>r' \<in> set (tbl_DocumentVersion db). dv_id r' = p \<longrightarrow>
            r' \<noteq> r \<and> dv_documentId r' = dv_documentId r \<and> dv_version r' = dv_version r - 1)"
    if p: "dv_previousVersionId r = Some p" for p
  proof -
    obtain a where a: "a \<in> set (tbl_DocumentVersion db)" "dv_id a = p" "a \<noteq> r"
      "dv_documentId a = dv_documentId r" "dv_version a = dv_version r - 1"
      using store_inv_previous [OF inv r p] by blast
    have "r' = a" if "r' \<in> set (tbl_DocumentVersion db)" and "dv_id r' = p" for r'
      using same_id_same_row [OF d that(1) a(1)] that(2) a(2) by simp
    then show ?thesis
      using a by blast
  qed
  have c4: "\<forall>r2 \<in> set (tbl_DocumentVersion db).
      dv_previousVersionId r2 = dv_previousVersionId r \<and> dv_previousVersionId r \<noteq> None
        \<longrightarrow> r2 = r"
    using store_inv_no_branch [OF inv r] by blast
  have c5: "\<forall>fuel. chain_walk (tbl_DocumentVersion db) fuel r =
      (if nat (dv_version r) - 1 \<le> fuel then Some (version_path db r) else None)"
    using store_inv_walk [OF inv r] by (simp add: version_path_def)
  show ?thesis
    using c1 c2 c3 c4 c5 store_inv_path [OF inv r]
    unfolding version_path_def by blast
qed

theorem version_chain_witness:
  "version_values ''v-3'' ''doc-1'' (Some 3) ''third draft'' None (Some ''v-2'') 4000
     \<in> set (tbl_DocumentVersion (store_run (initial_database [''user-1''] []) example_calls))
   \<and> chain_walk (tbl_DocumentVersion (store_run (initial_database [''user-1''] []) example_calls))
        2 (version_values ''v-3'' ''doc-1'' (Some 3) ''third draft'' None (Some ''v-2'') 4000)
      = Some
         [version_values ''v-3'' ''doc-1'' (Some 3) ''third draft'' None (Some ''v-2'') 4000,
          version_values ''v-2'' ''doc-1'' (Some 2) ''second draft'' None (Some ''v-1'') 3000,
          version_values ''v-1'' ''doc-1'' (Some 1) ''first draft'' None None 2000]
   \<and> chain_walk (tbl_DocumentVersion (store_run (initial_database [''user-1''] []) example_calls))
        1 (version_values ''v-3'' ''doc-1'' (Some 3) ''third draft'' None (Some ''v-2'') 4000)
      = None"
proof -
  let ?db = "store_run (initial_database [''user-1''] []) example_calls"
  let ?r = "version_values ''v-3'' ''doc-1'' (Some 3) ''third draft'' None (Some ''v-2'') 4000"
  have r: "?r \<in> set (tbl_DocumentVersion ?db)"
    by (simp add: example_store_table)
  have p: "version_path ?db ?r =
         [version_values ''v-3'' ''doc-1'' (Some 3) ''third draft'' None (Some ''v-2'') 4000,
          version_values ''v-2'' ''doc-1'' (Some 2) ''second draft'' None (Some ''v-1'') 3000,
          version_values ''v-1'' ''doc-1'' (Some 1) ''first draft'' None None 2000]"
    by (simp add: version_path_def versions_of_def example_store_table version_values_def)
  have v: "dv_version ?r = 3"
    by (simp add: version_values_def)
  have w: "\<forall>fuel. chain_walk (tbl_DocumentVersion ?db) fuel ?r =
             (if nat (dv_version ?r) - 1 \<le> fuel then Some (version_path ?db ?r) else None)"
    using version_chain [OF refl r] by blast
  have "nat (dv_version ?r) - 1 \<le> 2" and "\<not> nat (dv_version ?r) - 1 \<le> 1"
    using v by simp_all
  then have "chain_walk (tbl_DocumentVersion ?db) 2 ?r = Some (version_path ?db ?r)"
    and "chain_walk (tbl_DocumentVersion ?db) 1 ?r = None"
    using w [THEN spec, of 2] w [THEN spec, of 1] by (simp_all only: if_True if_False)
  then show ?thesis
    using r p by (simp only: simp_thms)
qed


section \<open>Properties of the labels\<close>

lemma int_diff_div:
  fixes l r D :: int
  assumes "0 < D"
  shows "(l - r) div D = l div D - r div D - (if l mod D < r mod D then 1 else 0)"
proof -
  let ?q = "l div D - r div D"
  have split: "l - r = D * ?q + (l mod D - r mod D)"
    by (simp add: algebra_simps)
  have bl: "0 \<le> l mod D" "l mod D < D" and br: "0 \<le> r mod D" "r mod D < D"
    using assms by simp_all
  show ?thesis
  proof (cases "l mod D < r mod D")
    case True
    have "l - r = (D + l mod D - r mod D) + D * (?q - 1)"
      using split by (simp add: algebra_simps)
    then have "(l - r) div D = (?q - 1) + (D + l mod D - r mod D) div D"
      using assms by simp
    moreover have "(D + l mod D - r mod D) div D = 0"
      using True bl br by (intro div_pos_pos_trivial) linarith+
    ultimately show ?thesis using True by simp
  next
    case False
    have "l - r = (l mod D - r mod D) + D * ?q"
      using split by (simp add: algebra_simps)
    then have "(l - r) div D = ?q + (l mod D - r mod D) div D"
      using assms by simp
    moreover have "(l mod D - r mod D) div D = 0"
      using False bl br by (intro div_pos_pos_trivial) linarith+
    ultimately show ?thesis using False by simp
  qed
qed

lemma int_div_less_iff:
  fixes a D k :: int
  assumes "0 < D"
  shows "(a div D < k) = (a < k * D)"
proof
  define q r where "q = a div D" and "r = a mod D"
  have eq: "a = q * D + r" unfolding q_def r_def by simp
  have m: "0 \<le> r" "r < D" unfolding r_def using assms by simp_all
  {
    assume "a div D < k"
    then have "q + 1 \<le> k" by (simp add: q_def)
    then have "(q + 1) * D \<le> k * D"
      using assms by (simp only: mult_right_mono less_imp_le)
    then have "q * D + D \<le> k * D"
      by (simp add: distrib_right)
    then show "a < k * D"
      using eq m by linarith
  }
  {
    assume lt: "a < k * D"
    show "a div D < k"
    proof (rule ccontr)
      assume "\<not> a div D < k"
      then have "k \<le> q" by (simp add: q_def)
      then have "k * D \<le> q * D"
        using assms by (simp only: mult_right_mono less_imp_le)
      then show False
        using eq m lt by linarith
    qed
  }
qed

lemma differenceInDays_past:
  assumes "d \<le> now"
  shows "differenceInDays now d = (now - d) div ms_per_day"
proof (cases "d = now")
  case True
  then show ?thesis
    by (simp add: differenceInDays_def compareLocalAsc_def Let_def)
next
  case False
  then have lt: "d < now" using assms by simp
  have D: "0 < ms_per_day" by (simp add: ms_per_day_def)
  let ?q = "local_day now - local_day d"
  have q: "0 \<le> ?q"
    unfolding local_day_def using assms D by (simp add: zdiv_mono1)
  have shifted: "now - ?q * ms_per_day = now mod ms_per_day + local_day d * ms_per_day"
    unfolding local_day_def by (simp add: algebra_simps)
  have dd: "d = d mod ms_per_day + local_day d * ms_per_day"
    unfolding local_day_def by simp
  have cmp: "(now - ?q * ms_per_day < d) = (now mod ms_per_day < d mod ms_per_day)"
    using shifted dd by linarith
  have sh: "compareLocalAsc (now - ?q * ms_per_day) d = - 1
              \<longleftrightarrow> now mod ms_per_day < d mod ms_per_day"
    using cmp by (simp add: compareLocalAsc_def)
  have "differenceInDays now d = ?q - (if now mod ms_per_day < d mod ms_per_day then 1 else 0)"
    using lt q sh
    by (simp add: differenceInDays_def differenceInCalendarDays_def Let_def compareLocalAsc_def)
  also have "\<dots> = (now - d) div ms_per_day"
    using int_diff_div [OF D, of now d] by (simp add: local_day_def)
  finally show ?thesis .
qed


lemma local_day_yesterday: "local_day (now - ms_per_day) = local_day now - 1"
proof -
  have D: "0 < ms_per_day" by (simp add: ms_per_day_def)
  have "now - ms_per_day = now + (- 1) * ms_per_day" by simp
  then have "(now - ms_per_day) div ms_per_day = (now + (- 1) * ms_per_day) div ms_per_day"
    by (rule arg_cong)
  also have "\<dots> = now div ms_per_day + (- 1)"
    using D by (metis div_mult_self1 add.commute less_irrefl)
  finally show ?thesis
    by (simp add: local_day_def)
qed

lemma elapsed_days_calendar:
  assumes "d \<le> now" and "k * ms_per_day \<le> now - d"
  shows "local_day d \<le> local_day now - k"
proof -
  have D: "0 < ms_per_day" by (simp add: ms_per_day_def)
  have "d + k * ms_per_day \<le> now" using assms(2) by simp
  then have "(d + k * ms_per_day) div ms_per_day \<le> now div ms_per_day"
    using D by (rule zdiv_mono1)
  moreover have "(d + k * ms_per_day) div ms_per_day = d div ms_per_day + k"
    using D by simp
  ultimately show ?thesis
    by (simp add: local_day_def)
qed

lemma elapsed_days_div: "((now - d) div ms_per_day < k) = (now - d < k * ms_per_day)"
proof -
  have D: "0 < ms_per_day" by (simp add: ms_per_day_def)
  show ?thesis
    by (rule int_div_less_iff [OF D])
qed

lemma label_today: "local_day d = local_day now \<Longrightarrow> formatVersionLabel now d = ''Today''"
  by (simp add: formatVersionLabel_def isToday_def isSameDay_def)

lemma label_yesterday:
  "local_day d = local_day now - 1 \<Longrightarrow> formatVersionLabel now d = ''Yesterday''"
  by (simp add: formatVersionLabel_def isToday_def isYesterday_def isSameDay_def
        local_day_yesterday)

lemma label_by_days:
  assumes "local_day d \<noteq> local_day now" and "local_day d \<noteq> local_day now - 1"
  shows "formatVersionLabel now d =
           (if differenceInDays now d < 7 then format d [EEE]
            else if differenceInDays now d < 60 then format d [MMM, Literal '' '', Tok_d]
            else format d [MMM, Literal '' '', Tok_yyyy])"
  using assms
  by (simp add: formatVersionLabel_def isToday_def isYesterday_def isSameDay_def
        local_day_yesterday Let_def)

lemma label_weekday:
  assumes "local_day d \<noteq> local_day now" and "local_day d \<noteq> local_day now - 1"
    and "within_last_days 7 now d"
  shows "formatVersionLabel now d = format d [EEE]"
proof -
  have "d \<le> now" and "now - d < 7 * ms_per_day"
    using assms(3) by (simp_all add: within_last_days_def)
  then have "differenceInDays now d < 7"
    by (simp add: differenceInDays_past elapsed_days_div)
  then show ?thesis
    using label_by_days [OF assms(1,2)] by simp
qed

lemma label_month_day:
  assumes "\<not> within_last_days 7 now d" and "within_last_days 60 now d"
  shows "formatVersionLabel now d = format d [MMM, Literal '' '', Tok_d]"
proof -
  have le: "d \<le> now" and lt: "now - d < 60 * ms_per_day"
    using assms(2) by (simp_all add: within_last_days_def)
  have ge: "7 * ms_per_day \<le> now - d"
    using assms(1) le by (simp add: within_last_days_def)
  have "local_day d \<le> local_day now - 7"
    using elapsed_days_calendar [OF le ge] by simp
  then have days: "local_day d \<noteq> local_day now" "local_day d \<noteq> local_day now - 1"
    by simp_all
  have "\<not> differenceInDays now d < 7" and "differenceInDays now d < 60"
    using le lt ge by (simp_all add: differenceInDays_past elapsed_days_div)
  then show ?thesis
    using label_by_days [OF days] by simp
qed

lemma label_month_year:
  assumes "d \<le> now" and "\<not> within_last_days 60 now d"
  shows "formatVersionLabel now d = format d [MMM, Literal '' '', Tok_yyyy]"
proof -
  have ge: "60 * ms_per_day \<le> now - d"
    using assms by (simp add: within_last_days_def)
  have "local_day d \<le> local_day now - 60"
    using elapsed_days_calendar [OF assms(1) ge] by simp
  then have days: "local_day d \<noteq> local_day now" "local_day d \<noteq> local_day now - 1"
    by simp_all
  have "\<not> differenceInDays now d < 60"
    using assms(1) ge by (simp add: differenceInDays_past elapsed_days_div)
  then have "\<not> differenceInDays now d < 7" by simp
  then show ?thesis
    using label_by_days [OF days] \<open>\<not> differenceInDays now d < 60\<close> by simp
qed

lemma format_EEE_day_name: "format d [EEE] \<in> set day_names"
proof -
  have "0 \<le> getDay d" and "getDay d < 7"
    by (simp_all add: getDay_def)
  then have "nat (getDay d) < length day_names"
    by (simp add: day_names_def)
  then show ?thesis
    by (simp add: format_def format_token_def)
qed

lemma header_strings_valid:
  "valid_index p \<Longrightarrow>
     version_header_strings formatDistance now p =
       Some \<lparr>dateString = formatVersionLabel now (v_createdAt (selected_version p)),
             timeString = formatVersionTime (v_createdAt (selected_version p)),
             relativeTimeString = formatDistance (v_createdAt (selected_version p)) now\<rparr>"
  by (auto simp: version_header_strings_def valid_index_def selected_version_def Let_def
      split: option.splits)

text \<open>A date after \<open>now\<close>, on a later day, is labelled with the name of its day of the week.\<close>

lemma label_of_later_day:
  assumes "local_day now < local_day d"
  shows "formatVersionLabel now d = format d [EEE]"
proof -
  have D: "0 < ms_per_day" by (simp add: ms_per_day_def)
  have "\<not> d \<le> now"
  proof
    assume "d \<le> now"
    then have "d div ms_per_day \<le> now div ms_per_day"
      using D by (rule zdiv_mono1)
    then show False using assms by (simp add: local_day_def)
  qed
  then have lt: "now < d" by simp
  have "differenceInDays now d \<le> 0"
    using lt assms
    by (simp add: differenceInDays_def differenceInCalendarDays_def Let_def compareLocalAsc_def)
  then have "differenceInDays now d < 7" by simp
  then show ?thesis
    using assms label_by_days [of d now] by simp
qed

lemma scenario_today:
  "formatVersionLabel (local_date 2024 6 15 12 0) (local_date 2024 6 15 9 0) = ''Today''"
  by code_simp

lemma scenario_yesterday:
  "formatVersionLabel (local_date 2024 6 15 12 0) (local_date 2024 6 14 9 0) = ''Yesterday''"
  by code_simp

lemma scenario_weekday:
  "formatVersionLabel (local_date 2024 6 15 12 0) (local_date 2024 6 10 9 0) = ''Mon''"
  by code_simp

lemma scenario_month_day:
  "formatVersionLabel (local_date 2024 6 15 12 0) (local_date 2024 5 1 0 0) = ''May 1''"
  by code_simp

lemma scenario_month_year:
  "formatVersionLabel (local_date 2024 6 15 12 0) (local_date 2023 1 1 0 0) = ''Jan 2023''"
  by code_simp

lemma scenario_time:
  "formatVersionTime (local_date 2024 6 15 9 0) = ''9:00 AM''"
  by code_simp

text \<open>
  Claim C6, as amended. The label is a function of the timestamp and of \<open>now\<close>:
  \<^verbatim>\<open>Today\<close> for a timestamp on the calendar day of \<open>now\<close>, \<^verbatim>\<open>Yesterday\<close> for one on
  the day before; the short name of its day of the week for a timestamp that is less than
  7 days old, and also for a timestamp on a calendar day after that of \<open>now\<close>; its
  month and day when it is at least 7 and less than 60 days old; its month and year when
  it is 60 days old or more. With \<open>now\<close> 2024-06-15 12:00 the five timestamps of the
  specification give \<^verbatim>\<open>Today\<close>, \<^verbatim>\<open>Yesterday\<close>, \<^verbatim>\<open>Mon\<close>, \<^verbatim>\<open>May 1\<close> and
  \<^verbatim>\<open>Jan 2023\<close>. The header of a version that exists shows this label together with the
  time of day (\<^verbatim>\<open>9:00 AM\<close> for 09:00) and the relative time that \<^verbatim>\<open>formatDistance\<close>
  returns for the timestamp and \<open>now\<close>.
\<close>

theorem version_label_cases:
  "(local_day d = local_day now \<longrightarrow> formatVersionLabel now d = ''Today'')
   \<and> (local_day d = local_day now - 1 \<longrightarrow> formatVersionLabel now d = ''Yesterday'')
   \<and> (local_day d \<noteq> local_day now \<and> local_day d \<noteq> local_day now - 1
        \<and> within_last_days 7 now d \<longrightarrow>
          formatVersionLabel now d = format d [EEE]
          \<and> formatVersionLabel now d \<in> set day_names)
   \<and> (\<not> within_last_days 7 now d \<and> within_last_days 60 now d \<longrightarrow>
          formatVersionLabel now d = format d [MMM, Literal '' '', Tok_d])
   \<and> (d \<le> now \<and> \<not> within_last_days 60 now d \<longrightarrow>
          formatVersionLabel now d = format d [MMM, Literal '' '', Tok_yyyy])
   \<and> (local_day now < local_day d \<longrightarrow>
          formatVersionLabel now d = format d [EEE]
          \<and> formatVersionLabel now d \<in> set day_names)
   \<and> formatVersionLabel (local_date 2024 6 15 12 0) (local_date 2024 6 15 9 0) = ''Today''
   \<and> formatVersionLabel (local_date 2024 6 15 12 0) (local_date 2024 6 14 9 0) = ''Yesterday''
   \<and> formatVersionLabel (local_date 2024 6 15 12 0) (local_date 2024 6 10 9 0) = ''Mon''
   \<and> formatVersionLabel (local_date 2024 6 15 12 0) (local_date 2024 5 1 0 0) = ''May 1''
   \<and> formatVersionLabel (local_date 2024 6 15 12 0) (local_date 2023 1 1 0 0) = ''Jan 2023''
   \<and> formatVersionTime (local_date 2024 6 15 9 0) = ''9:00 AM''
   \<and> (valid_index p \<longrightarrow>
        version_header_strings formatDistance now p =
          Some \<lparr>dateString = formatVersionLabel now (v_createdAt (selected_version p)),
                timeString = formatVersionTime (v_createdAt (selected_version p)),
                relativeTimeString = formatDistance (v_createdAt (selected_version p)) now\<rparr>)"
proof -
  have weekday: "formatVersionLabel now d = format d [EEE]
      \<and> formatVersionLabel now d \<in> set day_names"
    if "local_day d \<noteq> local_day now" and "local_day d \<noteq> local_day now - 1"
      and "within_last_days 7 now d"
    using label_weekday [OF that] format_EEE_day_name [of d] by simp
  have later: "formatVersionLabel now d = format d [EEE]
      \<and> formatVersionLabel now d \<in> set day_names"
    if "local_day now < local_day d"
    using label_of_later_day [OF that] format_EEE_day_name [of d] by simp
  show ?thesis
    using label_today [of d now] label_yesterday [of d now] weekday later
      label_month_day [of now d] label_month_year [of d now]
      header_strings_valid [of p formatDistance now]
      scenario_today scenario_yesterday scenario_weekday scenario_month_day
      scenario_month_year scenario_time
    by blast
qed

theorem version_label_cases_witness:
  "local_day (local_date 2024 6 10 9 0) \<noteq> local_day (local_date 2024 6 15 12 0)
   \<and> local_day (local_date 2024 6 10 9 0) \<noteq> local_day (local_date 2024 6 15 12 0) - 1
   \<and> within_last_days 7 (local_date 2024 6 15 12 0) (local_date 2024 6 10 9 0)
   \<and> format (local_date 2024 6 10 9 0) [EEE] = ''Mon''
   \<and> \<not> within_last_days 7 (local_date 2024 6 15 12 0) (local_date 2024 5 1 0 0)
   \<and> within_last_days 60 (local_date 2024 6 15 12 0) (local_date 2024 5 1 0 0)
   \<and> format (local_date 2024 5 1 0 0) [MMM, Literal '' '', Tok_d] = ''May 1''
   \<and> local_date 2023 1 1 0 0 \<le> local_date 2024 6 15 12 0
   \<and> \<not> within_last_days 60 (local_date 2024 6 15 12 0) (local_date 2023 1 1 0 0)
   \<and> format (local_date 2023 1 1 0 0) [MMM, Literal '' '', Tok_yyyy] = ''Jan 2023''
   \<and> valid_index (example_props 0)
   \<and> version_header_strings (\<lambda>d now. ''some time ago'') (local_date 2024 6 15 12 0)
        (example_props 0)
      = Some \<lparr>dateString = ''Jan 1970'', timeString = ''12:00 AM'',
              relativeTimeString = ''some time ago''\<rparr>"
proof -
  let ?now = "local_date 2024 6 15 12 0"
  have h1: "local_day (local_date 2024 6 10 9 0) \<noteq> local_day ?now"
    and h2: "local_day (local_date 2024 6 10 9 0) \<noteq> local_day ?now - 1"
    and h3: "within_last_days 7 ?now (local_date 2024 6 10 9 0)"
    and h4: "\<not> within_last_days 7 ?now (local_date 2024 5 1 0 0)"
    and h5: "within_last_days 60 ?now (local_date 2024 5 1 0 0)"
    and h6: "local_date 2023 1 1 0 0 \<le> ?now"
    and h7: "\<not> within_last_days 60 ?now (local_date 2023 1 1 0 0)"
    by (simp_all add: local_date_def day_of_civil_def local_day_def ms_per_day_def
          within_last_days_def)
  have v: "valid_index (example_props 0)"
    by (simp add: valid_index_def example_props_def example_versions_def)
  have c: "v_createdAt (selected_version (example_props 0)) = 1000"
    by (simp add: selected_version_def example_props_def example_versions_def)
  have l: "formatVersionLabel ?now 1000 = ''Jan 1970''"
    by code_simp
  have t: "formatVersionTime 1000 = ''12:00 AM''"
    by code_simp
  have a: "format (local_date 2024 6 10 9 0) [EEE] = ''Mon''"
    using version_label_cases
            [where d = "local_date 2024 6 10 9 0" and now = ?now and p = "example_props 0"
               and formatDistance = "\<lambda>d now. ''some time ago''"] h1 h2 h3
    by metis
  have b: "format (local_date 2024 5 1 0 0) [MMM, Literal '' '', Tok_d] = ''May 1''"
    using version_label_cases
            [where d = "local_date 2024 5 1 0 0" and now = ?now and p = "example_props 0"
               and formatDistance = "\<lambda>d now. ''some time ago''"] h4 h5
    by metis
  have y: "format (local_date 2023 1 1 0 0) [MMM, Literal '' '', Tok_yyyy] = ''Jan 2023''"
    using version_label_cases
            [where d = "local_date 2023 1 1 0 0" and now = ?now and p = "example_props 0"
               and formatDistance = "\<lambda>d now. ''some time ago''"] h6 h7
    by metis
  have hs: "version_header_strings (\<lambda>d now. ''some time ago'') ?now (example_props 0)
      = Some \<lparr>dateString = ''Jan 1970'', timeString = ''12:00 AM'',
              relativeTimeString = ''some time ago''\<rparr>"
    using version_label_cases
            [where d = 1000 and p = "example_props 0" and now = ?now
               and formatDistance = "\<lambda>d now. ''some time ago''"] v
    by (simp add: c l t)
  show ?thesis
    using h1 h2 h3 h4 h5 h6 h7 v a b y hs by (simp only: simp_thms)
qed

text \<open>
  Claim C6 as it is written gives month and year to every timestamp that is neither of
  today, nor of yesterday, nor of the last 60 days. With \<open>now\<close> 2024-06-15 12:00, the
  timestamp 2025-06-16 09:00 is none of these, its month and year are \<^verbatim>\<open>Jun 2025\<close>,
  and its label is \<^verbatim>\<open>Mon\<close>.
\<close>

theorem version_label_future_counterexample:
  "\<not> isToday (local_date 2024 6 15 12 0) (local_date 2025 6 16 9 0)
   \<and> \<not> isYesterday (local_date 2024 6 15 12 0) (local_date 2025 6 16 9 0)
   \<and> \<not> within_last_days 7 (local_date 2024 6 15 12 0) (local_date 2025 6 16 9 0)
   \<and> \<not> within_last_days 60 (local_date 2024 6 15 12 0) (local_date 2025 6 16 9 0)
   \<and> format (local_date 2025 6 16 9 0) [MMM, Literal '' '', Tok_yyyy] = ''Jun 2025''
   \<and> formatVersionLabel (local_date 2024 6 15 12 0) (local_date 2025 6 16 9 0) = ''Mon''"
  by code_simp

end
